theory Spec2Isabelle
  imports Complex_Main "HOL-Library.Word" "HOL-Library.Log_Nat"
begin

section \<open>Data model (internal/domain)\<close>

text \<open>
  \<open>uuid.UUID\<close> is a 16-byte array, modelled as a 128-bit word; \<open>uuid.Nil\<close> is the
  all-zero value. \<open>time.Time\<close> is an instant on a linear time line, counted in
  nanoseconds from Go's zero \<open>Time\<close>, so that the zero value of the type is \<open>0\<close>;
  clock readings are taken to be whole microseconds, which is the resolution at which
  a \<open>TIMESTAMPTZ\<close> column keeps them. \<open>int64\<close> amounts are kept as integers (no
  arithmetic is done on stored amounts), a \<open>*T\<close> field is an option, \<open>float64\<close>
  coordinates are kept as their 64-bit pattern, and strings are byte lists.
  \<open>RawData\<close> is empty (\<open>nil\<close>) or a JSON document, as \<open>json.Marshal\<close> builds it.
\<close>

type_synonym uuid = "128 word"
type_synonym time = int

definition uuid_Nil :: uuid where
  "uuid_Nil = 0"

record listing =
  ID :: uuid
  SourceID :: uuid
  ExternalID :: string
  URL :: string
  Title :: string
  Description :: string
  AskingPrice :: "int option"
  Revenue :: "int option"
  CashFlow :: "int option"
  EBITDA :: "int option"
  Inventory :: "int option"
  RealEstateIncluded :: bool
  RealEstateValue :: "int option"
  City :: string
  State :: string
  ZipCode :: string
  Country :: string
  Lat :: "64 word option"
  Lng :: "64 word option"
  Industry :: string
  IndustryCategory :: string
  BusinessType :: string
  YearEstablished :: "int option"
  Employees :: "int option"
  ReasonForSale :: string
  LeaseExpiration :: "time option"
  MonthlyRent :: "int option"
  IsFranchise :: bool
  FranchiseName :: string
  RawData :: string
  FirstSeenAt :: time
  LastSeenAt :: time
  IsActive :: bool

record source =
  SrcID :: uuid
  Name :: string
  Slug :: string
  BaseURL :: string
  ScraperType :: string
  SrcIsActive :: bool
  Config :: string
  SrcCreatedAt :: time
  UpdatedAt :: time

record ScrapeJob =
  JobID :: uuid
  JobSourceID :: uuid
  Status :: string
  StartedAt :: "time option"
  CompletedAt :: "time option"
  ListingsFound :: int
  ListingsNew :: int
  ListingsUpdated :: int
  ErrorMessage :: string
  CreatedAt :: time

definition ScrapeJobStatusPending :: string where
  "ScrapeJobStatusPending = ''pending''"

definition ScrapeJobStatusRunning :: string where
  "ScrapeJobStatusRunning = ''running''"

definition ScrapeJobStatusCompleted :: string where
  "ScrapeJobStatusCompleted = ''completed''"

definition ScrapeJobStatusFailed :: string where
  "ScrapeJobStatusFailed = ''failed''"

text \<open>\<open>time.Duration\<close> is a count of nanoseconds.\<close>

definition Second :: int where
  "Second = 1000000000"

record ScrapeOptions =
  FullScrape :: bool
  MaxListings :: int
  RateLimit :: int
  LastScrapeAt :: time

section \<open>The database (migration 001)\<close>

text \<open>
  The tables \<open>sources\<close>, \<open>listings\<close> and \<open>scrape_jobs\<close> of the initial migration.
  A row of \<open>listings\<close> is the 33 columns that the repository writes, together with
  the document text from which the column \<open>search_vector\<close> is computed
  (\<open>to_tsvector('english', \<dots>)\<close> is a function of that text). A row of \<open>sources\<close> or
  \<open>scrape_jobs\<close> has the columns of the Go struct; a \<open>NULL\<close> in \<open>error_message\<close> is
  the empty text.

  The constraints of the migration that a statement of the repositories can violate:
  \<^item> \<open>listings.id\<close> and \<open>scrape_jobs.id\<close> are primary keys;
  \<^item> \<open>listings.source_id\<close> and \<open>scrape_jobs.source_id\<close> reference \<open>sources(id)\<close>;
  \<^item> \<open>UNIQUE(source_id, external_id)\<close> on \<open>listings\<close>, the conflict target of
    \<open>Upsert\<close>;
  \<^item> \<open>year_established\<close>, \<open>employees\<close> and the three counters of \<open>scrape_jobs\<close> are
    \<open>INTEGER\<close> (32 bits), where the Go fields are \<open>int\<close> (64 bits);
  \<^item> \<open>lease_expiration\<close> is a \<open>DATE\<close>: it keeps the day (taken in UTC) of the
    instant it is given.
  The \<open>NOT NULL\<close> columns are Go strings, which are never \<open>NULL\<close>.
\<close>

record row =
  cols :: listing
  search_vector :: string

type_synonym listings_table = "row list"

record database =
  sources :: "source list"
  listings :: listings_table
  scrape_jobs :: "ScrapeJob list"

definition key_of :: "row \<Rightarrow> uuid \<times> string" where
  "key_of r = (SourceID (cols r), ExternalID (cols r))"

definition unique_keys :: "listings_table \<Rightarrow> bool" where
  "unique_keys tbl = distinct (map key_of tbl)"

definition int32 :: "int \<Rightarrow> bool" where
  "int32 n = (- (2 ^ 31) \<le> n \<and> n < 2 ^ 31)"

definition int32_opt :: "int option \<Rightarrow> bool" where
  "int32_opt v = (case v of None \<Rightarrow> True | Some n \<Rightarrow> int32 n)"

definition Day :: int where
  "Day = 86400 * Second"

definition date_of :: "time \<Rightarrow> time" where
  "date_of t = t - t mod Day"

text \<open>
  The trigger \<open>listings_search_vector_trigger\<close>, \<open>BEFORE INSERT OR UPDATE \<dots> FOR EACH
  ROW\<close>: whatever the statement assigns to \<open>search_vector\<close>, the row is stored with
  the vector of title, description, industry, city and state of the new row.
\<close>

definition tsvector_doc :: "listing \<Rightarrow> string" where
  "tsvector_doc n =
     Title n @ '' '' @ Description n @ '' '' @ Industry n @ '' '' @ City n @ '' '' @ State n"

definition search_vector_update :: "listing \<Rightarrow> row" where
  "search_vector_update n = \<lparr>cols = n, search_vector = tsvector_doc n\<rparr>"

text \<open>
  How a statement of a repository can fail. \<open>ExecContext\<close> and \<open>GetContext\<close> are
  given the context of the run: when that context is done, they return its error and
  the statement is not executed; the same holds when the database cannot be reached.
  A \<open>conn\<close> is the state of the two at the time of a call.
\<close>

datatype db_error =
  ContextDone
| ConnectionFailed
| IntegerOutOfRange
| UniqueViolation
| ForeignKeyViolation
| NoRows

record conn =
  ctx_done :: bool
  db_down :: bool

definition exec_error :: "conn \<Rightarrow> db_error option" where
  "exec_error c =
     (if ctx_done c then Some ContextDone
      else if db_down c then Some ConnectionFailed else None)"

section \<open>ListingRepository (internal/repository)\<close>

text \<open>\<open>ON CONFLICT (source_id, external_id)\<close>: the stored row the candidate collides with.\<close>

definition conflicts :: "row \<Rightarrow> listing \<Rightarrow> bool" where
  "conflicts r l = (SourceID (cols r) = SourceID l \<and> ExternalID (cols r) = ExternalID l)"

text \<open>
  The \<open>VALUES\<close> clause: the row an insert stores. The columns are the fields of the
  candidate, \<open>$1\<close> to \<open>$33\<close>, with \<open>is_active = $33\<close>, the candidate's own
  \<open>IsActive\<close>; the trigger sets \<open>search_vector\<close>.
\<close>

definition insert_values :: "listing \<Rightarrow> row" where
  "insert_values l =
     search_vector_update (l\<lparr>LeaseExpiration := map_option date_of (LeaseExpiration l)\<rparr>)"

text \<open>
  The \<open>DO UPDATE SET\<close> list, column by column in the order of the statement;
  \<open>e\<close> is \<open>EXCLUDED\<close>, the candidate. The columns id, source_id, external_id, country
  and first_seen_at are not in the list and keep the stored value; \<open>is_active\<close> is set
  to \<open>true\<close>; the trigger sets \<open>search_vector\<close>.
\<close>

definition do_update_set :: "row \<Rightarrow> listing \<Rightarrow> row" where
  "do_update_set r e =
     search_vector_update ((cols r)\<lparr>
        URL := URL e,
        Title := Title e,
        Description := Description e,
        AskingPrice := AskingPrice e,
        Revenue := Revenue e,
        CashFlow := CashFlow e,
        EBITDA := EBITDA e,
        Inventory := Inventory e,
        RealEstateIncluded := RealEstateIncluded e,
        RealEstateValue := RealEstateValue e,
        City := City e,
        State := State e,
        ZipCode := ZipCode e,
        Lat := Lat e,
        Lng := Lng e,
        Industry := Industry e,
        IndustryCategory := IndustryCategory e,
        BusinessType := BusinessType e,
        YearEstablished := YearEstablished e,
        Employees := Employees e,
        ReasonForSale := ReasonForSale e,
        LeaseExpiration := map_option date_of (LeaseExpiration e),
        MonthlyRent := MonthlyRent e,
        IsFranchise := IsFranchise e,
        FranchiseName := FranchiseName e,
        RawData := RawData e,
        LastSeenAt := LastSeenAt e,
        IsActive := True\<rparr>)"

text \<open>
  \<open>ListingRepository.Upsert\<close>: one \<open>INSERT \<dots> ON CONFLICT (source_id, external_id) DO
  UPDATE\<close> statement, run with \<open>ExecContext\<close>; \<open>Inl\<close> is the error it returns, and
  then nothing is written.
  \<^item> The statement is not executed when the context is done or the database is down.
  \<^item> The values for the \<open>INTEGER\<close> columns must fit.
  \<^item> If a row with the candidate's (source_id, external_id) exists, it is updated.
  \<^item> Otherwise the candidate is inserted, unless its id is the id of another row or
    its source_id is the id of no source.
\<close>

definition Upsert :: "conn \<Rightarrow> database \<Rightarrow> listing \<Rightarrow> db_error + database" where
  "Upsert c db l =
     (case exec_error c of
        Some e \<Rightarrow> Inl e
      | None \<Rightarrow>
          if \<not> (int32_opt (YearEstablished l) \<and> int32_opt (Employees l))
          then Inl IntegerOutOfRange
          else if \<exists>r \<in> set (listings db). conflicts r l
          then Inr (db\<lparr>listings :=
                 map (\<lambda>r. if conflicts r l then do_update_set r l else r) (listings db)\<rparr>)
          else if ID l \<in> set (map (\<lambda>r. ID (cols r)) (listings db))
          then Inl UniqueViolation
          else if SourceID l \<notin> set (map SrcID (sources db))
          then Inl ForeignKeyViolation
          else Inr (db\<lparr>listings := listings db @ [insert_values l]\<rparr>))"

text \<open>
  \<open>ListingRepository.MarkStale\<close>: \<open>UPDATE listings SET is_active = false WHERE
  source_id = $1 AND last_seen_at < $2 AND is_active = true\<close>; the result is
  \<open>RowsAffected\<close> and the table. \<open>beforeTime\<close> is the instant that the
  string argument denotes. The columns that the trigger reads are not changed.
\<close>

definition stale_where :: "uuid \<Rightarrow> time \<Rightarrow> row \<Rightarrow> bool" where
  "stale_where sourceID beforeTime r =
     (SourceID (cols r) = sourceID \<and> LastSeenAt (cols r) < beforeTime \<and> IsActive (cols r))"

definition MarkStale :: "listings_table \<Rightarrow> uuid \<Rightarrow> time \<Rightarrow> nat \<times> listings_table" where
  "MarkStale tbl sourceID beforeTime =
     (length (filter (stale_where sourceID beforeTime) tbl),
      map (\<lambda>r. if stale_where sourceID beforeTime r
               then r\<lparr>cols := (cols r)\<lparr>IsActive := False\<rparr>\<rparr> else r) tbl)"

section \<open>SourceRepository (internal/repository)\<close>

text \<open>
  \<open>SourceRepository.GetBySlug\<close>: \<open>GetContext\<close> of \<open>SELECT * FROM sources WHERE slug =
  $1\<close>; \<open>slug\<close> is unique. The error is that of the context or the connection, or
  that there is no such row.
\<close>

definition GetBySlug :: "conn \<Rightarrow> database \<Rightarrow> string \<Rightarrow> db_error + source" where
  "GetBySlug c db slug =
     (case exec_error c of
        Some e \<Rightarrow> Inl e
      | None \<Rightarrow>
          (case find (\<lambda>s. Slug s = slug) (sources db) of
             None \<Rightarrow> Inl NoRows
           | Some s \<Rightarrow> Inr s))"

text \<open>
  \<open>SourceRepository.CreateScrapeJob\<close>: \<open>INSERT INTO scrape_jobs (id, source_id, status,
  created_at)\<close>; the other columns take their defaults, \<open>NULL\<close> and \<open>0\<close>.
\<close>

definition CreateScrapeJob :: "conn \<Rightarrow> database \<Rightarrow> ScrapeJob \<Rightarrow> db_error + database" where
  "CreateScrapeJob c db job =
     (case exec_error c of
        Some e \<Rightarrow> Inl e
      | None \<Rightarrow>
          if JobID job \<in> set (map JobID (scrape_jobs db)) then Inl UniqueViolation
          else if JobSourceID job \<notin> set (map SrcID (sources db)) then Inl ForeignKeyViolation
          else Inr (db\<lparr>scrape_jobs := scrape_jobs db @
                 [\<lparr>JobID = JobID job, JobSourceID = JobSourceID job, Status = Status job,
                   StartedAt = None, CompletedAt = None,
                   ListingsFound = 0, ListingsNew = 0, ListingsUpdated = 0,
                   ErrorMessage = [], CreatedAt = CreatedAt job\<rparr>]\<rparr>))"

text \<open>
  \<open>SourceRepository.UpdateScrapeJob\<close>: \<open>UPDATE scrape_jobs SET \<dots> WHERE id = $1\<close>. A
  job that has no row is no error: the statement updates nothing.
\<close>

definition UpdateScrapeJob :: "conn \<Rightarrow> database \<Rightarrow> ScrapeJob \<Rightarrow> db_error + database" where
  "UpdateScrapeJob c db job =
     (case exec_error c of
        Some e \<Rightarrow> Inl e
      | None \<Rightarrow>
          if \<not> (int32 (ListingsFound job) \<and> int32 (ListingsNew job) \<and>
                int32 (ListingsUpdated job))
          then Inl IntegerOutOfRange
          else Inr (db\<lparr>scrape_jobs :=
                 map (\<lambda>r. if JobID r = JobID job
                          then r\<lparr>Status := Status job,
                                 StartedAt := StartedAt job,
                                 CompletedAt := CompletedAt job,
                                 ListingsFound := ListingsFound job,
                                 ListingsNew := ListingsNew job,
                                 ListingsUpdated := ListingsUpdated job,
                                 ErrorMessage := ErrorMessage job\<rparr>
                          else r) (scrape_jobs db)\<rparr>))"

section \<open>Engine (internal/scraper/engine)\<close>

text \<open>
  The state that a run works on: the database, the state of the run's context and of
  the connection, and what was written with \<open>log.Printf\<close>.
\<close>

datatype log_entry =
  LogStartingJob string
| LogCreateJobRecordFailed db_error
| LogUpdateJobRecordFailed db_error
| LogCreateJobFailed db_error
| LogUpsertFailed string db_error
| LogScrapeError string
| LogUpdateJobFailed db_error
| LogCompleted string int int int

record world =
  the_db :: database
  the_conn :: conn
  the_log :: "log_entry list"

text \<open>
  \<open>Scraper.Scrape\<close> returns a listing channel and an error channel that a goroutine
  of the scraper feeds and closes. What happens in a run of \<open>RunSource\<close>, up to the
  receive that finds the listing channel closed, is a sequence of
  \<^item> \<open>RecvListing l t\<^sub>1 u t\<^sub>2\<close>: the \<open>select\<close> receives a listing; \<open>t\<^sub>1\<close>, \<open>u\<close> and \<open>t\<^sub>2\<close>
    are what \<open>time.Now()\<close> (line 100), \<open>uuid.New()\<close> (line 103) and \<open>time.Now()\<close> (line
    104) return in this iteration;
  \<^item> \<open>RecvError e\<close>: the \<open>select\<close> receives an error;
  \<^item> \<open>RecvErrorsClosed\<close>: the receive on the closed error channel (\<open>continue\<close>);
  \<^item> \<open>CtxDone\<close>: the context of the run is cancelled or its deadline passes. The
    \<open>select\<close> has no case for \<open>ctx.Done()\<close>, so this is not an outcome of it;
  \<^item> \<open>ConnLost\<close>, \<open>ConnRestored\<close>: the database becomes unreachable, or reachable
    again.
  A scraper is modelled by the sequence for given options; the sequence is finite,
  that is, the scraper closes its listing channel.
\<close>

datatype run_event =
  RecvListing listing time uuid time
| RecvError string
| RecvErrorsClosed
| CtxDone
| ConnLost
| ConnRestored

type_synonym scraper = "ScrapeOptions \<Rightarrow> run_event list"

record Engine =
  scrapers :: "string \<rightharpoonup> scraper"

definition RegisterScraper :: "Engine \<Rightarrow> string \<Rightarrow> scraper \<Rightarrow> Engine" where
  "RegisterScraper e name scraper = e\<lparr>scrapers := (scrapers e)(name \<mapsto> scraper)\<rparr>"

text \<open>
  A call of a repository function whose error the engine only logs: on an error the
  database is as before and the log has one more line.
\<close>

definition logged ::
  "(db_error \<Rightarrow> log_entry) \<Rightarrow> world \<Rightarrow> db_error + database \<Rightarrow> world" where
  "logged line w res =
     (case res of
        Inl e \<Rightarrow> w\<lparr>the_log := the_log w @ [line e]\<rparr>
      | Inr db' \<Rightarrow> w\<lparr>the_db := db'\<rparr>)"

text \<open>The variables of the drain loop, and the state it works on.\<close>

record drain_state =
  found :: int
  created :: int
  updated :: int
  state :: world

text \<open>One iteration of the \<open>for { select { \<dots> } }\<close> loop of \<open>RunSource\<close>.\<close>

fun drain_step :: "source \<Rightarrow> drain_state \<Rightarrow> run_event \<Rightarrow> drain_state" where
  "drain_step src s (RecvListing l t1 u t2) =
     (let l1 = l\<lparr>SourceID := SrcID src, LastSeenAt := t1\<rparr>;
          w = state s
      in if ID l1 = uuid_Nil
         then
           (let l2 = l1\<lparr>ID := u, FirstSeenAt := t2\<rparr>
            in s\<lparr>found := found s + 1, created := created s + 1,
                 state := logged (LogUpsertFailed (ExternalID l2)) w
                            (Upsert (the_conn w) (the_db w) l2)\<rparr>)
         else s\<lparr>found := found s + 1, updated := updated s + 1,
                state := logged (LogUpsertFailed (ExternalID l1)) w
                           (Upsert (the_conn w) (the_db w) l1)\<rparr>)"
| "drain_step src s (RecvError e) =
     s\<lparr>state := (state s)\<lparr>the_log := the_log (state s) @ [LogScrapeError e]\<rparr>\<rparr>"
| "drain_step src s RecvErrorsClosed = s"
| "drain_step src s CtxDone =
     s\<lparr>state := (state s)\<lparr>the_conn := (the_conn (state s))\<lparr>ctx_done := True\<rparr>\<rparr>\<rparr>"
| "drain_step src s ConnLost =
     s\<lparr>state := (state s)\<lparr>the_conn := (the_conn (state s))\<lparr>db_down := True\<rparr>\<rparr>\<rparr>"
| "drain_step src s ConnRestored =
     s\<lparr>state := (state s)\<lparr>the_conn := (the_conn (state s))\<lparr>db_down := False\<rparr>\<rparr>\<rparr>"

definition drain :: "source \<Rightarrow> run_event list \<Rightarrow> drain_state \<Rightarrow> drain_state" where
  "drain src evs s = foldl (drain_step src) s evs"

text \<open>
  What a run reads from its environment to build and finalize its job record:
  \<open>uuid.New()\<close> and three readings of \<open>time.Now()\<close>.
\<close>

record job_env =
  new_job_id :: uuid
  created_now :: time
  started_now :: time
  completed_now :: time

text \<open>The options that \<open>RunSource\<close> builds (lines 80 to 84).\<close>

definition run_opts :: "int \<Rightarrow> ScrapeOptions" where
  "run_opts limit =
     \<lparr>FullScrape = True, MaxListings = limit, RateLimit = 2 * Second, LastScrapeAt = 0\<rparr>"

text \<open>
  \<open>Engine.RunSource\<close>. The result is the returned error (\<open>None\<close> for \<open>nil\<close>) and the
  state after the run. Every error of \<open>GetBySlug\<close> is returned as \<open>source not
  found\<close>; the errors of \<open>CreateScrapeJob\<close>, \<open>Upsert\<close> and \<open>UpdateScrapeJob\<close> are
  logged and the run goes on.
\<close>

definition RunSource ::
  "Engine \<Rightarrow> job_env \<Rightarrow> world \<Rightarrow> string \<Rightarrow> int \<Rightarrow> string option \<times> world" where
  "RunSource e env w slug limit =
     (case GetBySlug (the_conn w) (the_db w) slug of
        Inl err \<Rightarrow> (Some (''source not found: '' @ slug), w)
      | Inr src \<Rightarrow>
         (case scrapers e slug of
            None \<Rightarrow> (Some (''no scraper registered for: '' @ slug), w)
          | Some scraper \<Rightarrow>
             (let job = \<lparr>JobID = new_job_id env, JobSourceID = SrcID src,
                         Status = ScrapeJobStatusRunning,
                         StartedAt = Some (started_now env), CompletedAt = None,
                         ListingsFound = 0, ListingsNew = 0, ListingsUpdated = 0,
                         ErrorMessage = [], CreatedAt = created_now env\<rparr>;
                  w1 = logged LogCreateJobFailed w
                         (CreateScrapeJob (the_conn w) (the_db w) job);
                  s = drain src (scraper (run_opts limit))
                        \<lparr>found = 0, created = 0, updated = 0, state = w1\<rparr>;
                  w2 = state s;
                  job' = job\<lparr>Status := ScrapeJobStatusCompleted,
                              CompletedAt := Some (completed_now env),
                              ListingsFound := found s,
                              ListingsNew := created s,
                              ListingsUpdated := updated s\<rparr>;
                  w3 = logged LogUpdateJobFailed w2
                         (UpdateScrapeJob (the_conn w2) (the_db w2) job')
              in (None,
                  w3\<lparr>the_log := the_log w3 @
                     [LogCompleted slug (found s) (created s) (updated s)]\<rparr>))))"

section \<open>Job workers (internal/scraper/jobs)\<close>

record ScrapeJobArgs =
  ArgSourceSlug :: string
  ArgMaxListings :: int
  ArgFullScrape :: bool

text \<open>
  \<open>ScrapeJobWorker.Work\<close>. The worker keeps a job record of its own (\<open>wenv\<close> are its
  readings) around the call of \<open>RunSource\<close> (whose readings are \<open>env\<close>).
\<close>

definition Work ::
  "Engine \<Rightarrow> job_env \<Rightarrow> job_env \<Rightarrow> world \<Rightarrow> ScrapeJobArgs \<Rightarrow> string option \<times> world" where
  "Work e wenv env w0 args =
     (let w = w0\<lparr>the_log := the_log w0 @ [LogStartingJob (ArgSourceSlug args)]\<rparr>
      in case GetBySlug (the_conn w) (the_db w) (ArgSourceSlug args) of
           Inl err \<Rightarrow> (Some (''source not found: '' @ ArgSourceSlug args), w)
         | Inr src \<Rightarrow>
            (let scrapeJob = \<lparr>JobID = new_job_id wenv, JobSourceID = SrcID src,
                              Status = ScrapeJobStatusRunning,
                              StartedAt = Some (started_now wenv), CompletedAt = None,
                              ListingsFound = 0, ListingsNew = 0, ListingsUpdated = 0,
                              ErrorMessage = [], CreatedAt = created_now wenv\<rparr>;
                 w1 = logged LogCreateJobRecordFailed w
                        (CreateScrapeJob (the_conn w) (the_db w) scrapeJob);
                 (err, w2) = RunSource e env w1 (ArgSourceSlug args) (ArgMaxListings args);
                 scrapeJob' =
                   (case err of
                      Some msg \<Rightarrow> scrapeJob\<lparr>CompletedAt := Some (completed_now wenv),
                                            Status := ScrapeJobStatusFailed,
                                            ErrorMessage := msg\<rparr>
                    | None \<Rightarrow> scrapeJob\<lparr>CompletedAt := Some (completed_now wenv),
                                        Status := ScrapeJobStatusCompleted\<rparr>)
             in (err, logged LogUpdateJobRecordFailed w2
                        (UpdateScrapeJob (the_conn w2) (the_db w2) scrapeJob'))))"

section \<open>Text functions (packages strings, regexp, strconv)\<close>

text \<open>
  Go strings are byte sequences. The functions below are the Go library functions on
  ASCII text, which is what the price texts of the claims are: \<open>ToLower\<close> maps the
  letters A to Z, \<open>TrimSpace\<close> trims the ASCII white space.
\<close>

definition ascii_upper :: string where
  "ascii_upper = ''ABCDEFGHIJKLMNOPQRSTUVWXYZ''"

definition ascii_lower :: string where
  "ascii_lower = ''abcdefghijklmnopqrstuvwxyz''"

definition ToLower :: "string \<Rightarrow> string" where
  "ToLower s =
     map (\<lambda>c. case map_of (zip ascii_upper ascii_lower) c of Some d \<Rightarrow> d | None \<Rightarrow> c) s"

definition HasPrefix :: "string \<Rightarrow> string \<Rightarrow> bool" where
  "HasPrefix s p = (take (length p) s = p)"

fun Contains :: "string \<Rightarrow> string \<Rightarrow> bool" where
  "Contains [] sub = (sub = [])"
| "Contains (c # cs) sub = (HasPrefix (c # cs) sub \<or> Contains cs sub)"

text \<open>
  \<open>strings.ReplaceAll(s, old, "")\<close>: the occurrences of \<open>old\<close> are removed from left
  to right, without overlap.
\<close>

function remove_all :: "string \<Rightarrow> string \<Rightarrow> string" where
  "remove_all [] old = []"
| "remove_all (c # cs) old =
     (if old \<noteq> [] \<and> HasPrefix (c # cs) old
      then remove_all (drop (length old) (c # cs)) old
      else c # remove_all cs old)"
  by pat_completeness auto
termination
  by (relation "measure (\<lambda>(s, old). length s)") auto

definition is_space :: "char \<Rightarrow> bool" where
  "is_space c = (c \<in> set [CHR 0x09, CHR 0x0A, CHR 0x0B, CHR 0x0C, CHR 0x0D, CHR '' ''])"

definition TrimSpace :: "string \<Rightarrow> string" where
  "TrimSpace s = rev (dropWhile is_space (rev (dropWhile is_space s)))"

definition is_digit :: "char \<Rightarrow> bool" where
  "is_digit c = (c \<in> set ''0123456789'')"

definition digit_val :: "char \<Rightarrow> nat" where
  "digit_val c =
     (case map_of (zip ''0123456789'' [0, 1, 2, 3, 4, 5, 6, 7, 8, 9]) c of
        Some d \<Rightarrow> d | None \<Rightarrow> 0)"

definition digits_val :: "string \<Rightarrow> nat" where
  "digits_val ds = foldl (\<lambda>n c. 10 * n + digit_val c) 0 ds"

text \<open>
  \<open>regexp.MustCompile(`[\d.]+`).FindString\<close>: the leftmost, longest run of digits
  and dots; the empty string when there is none.
\<close>

definition is_num_char :: "char \<Rightarrow> bool" where
  "is_num_char c = (is_digit c \<or> c = CHR ''.'')"

definition FindString_num :: "string \<Rightarrow> string" where
  "FindString_num s = takeWhile is_num_char (dropWhile (\<lambda>c. \<not> is_num_char c) s)"

section \<open>float64 arithmetic\<close>

text \<open>
  \<open>parsePrice\<close> computes in \<open>float64\<close>. Only values that are not negative arise; a
  value is its exact rational, or plus infinity. \<open>round_float64\<close> is the rounding of
  IEEE 754 binary64, to the nearest value with a 53-bit significand, ties to even, with
  the subnormal range below \<open>2\<^sup>-\<^sup>1\<^sup>0\<^sup>2\<^sup>2\<close> and infinity from \<open>2\<^sup>1\<^sup>0\<^sup>2\<^sup>4\<close> on. \<open>ilog2 q\<close> is the
  integer part of the binary logarithm of \<open>q > 0\<close>.
\<close>

datatype float64 = Finite rat | PosInf

definition pow2 :: "int \<Rightarrow> rat" where
  "pow2 n = (if 0 \<le> n then 2 ^ nat n else 1 / 2 ^ nat (- n))"

definition ilog2 :: "rat \<Rightarrow> int" where
  "ilog2 q =
     (let (a, b) = quotient_of q; d = bitlen a - bitlen b
      in if pow2 d \<le> q then d else d - 1)"

definition round_even :: "rat \<Rightarrow> int" where
  "round_even m =
     (let f = \<lfloor>m\<rfloor>; r = m - of_int f
      in if r < 1 / 2 then f else if 1 / 2 < r then f + 1
         else if even f then f else f + 1)"

definition round_float64 :: "rat \<Rightarrow> float64" where
  "round_float64 q =
     (if q = 0 then Finite 0
      else let e = max (ilog2 q) (- 1022); u = pow2 (e - 52);
               r = of_int (round_even (q / u)) * u
           in if pow2 1024 \<le> r then PosInf else Finite r)"

text \<open>The product of a value and a positive constant.\<close>

fun fmul :: "float64 \<Rightarrow> rat \<Rightarrow> float64" where
  "fmul (Finite a) c = round_float64 (a * c)"
| "fmul PosInf c = PosInf"

text \<open>
  \<open>strconv.ParseFloat(s, 64)\<close> on a text of digits and dots, which is what
  \<open>FindString_num\<close> returns: digits with at most one dot and at least one digit are
  accepted and rounded to the nearest \<open>float64\<close>; \<open>None\<close> is the error, also for a
  value that rounds to infinity (\<open>ErrRange\<close>).
\<close>

definition ParseFloat :: "string \<Rightarrow> float64 option" where
  "ParseFloat s =
     (let ip = takeWhile is_digit s; rest = dropWhile is_digit s;
          fp = (case rest of [] \<Rightarrow> [] | c # cs \<Rightarrow> cs)
      in if (rest \<noteq> [] \<and> hd rest \<noteq> CHR ''.'') \<or> \<not> list_all is_digit fp \<or> ip @ fp = []
         then None
         else (case round_float64 (of_nat (digits_val (ip @ fp)) / 10 ^ length fp) of
                 PosInf \<Rightarrow> None
               | Finite v \<Rightarrow> Some (Finite v)))"

text \<open>
  The conversion \<open>int64(v)\<close> truncates. For a value that \<open>int64\<close> cannot represent the
  result depends on the implementation; it is the parameter \<open>impl\<close>.
\<close>

definition int64_of_float64 :: "(float64 \<Rightarrow> int) \<Rightarrow> float64 \<Rightarrow> int" where
  "int64_of_float64 impl v =
     (case v of
        Finite q \<Rightarrow> if \<lfloor>q\<rfloor> < 2 ^ 63 then \<lfloor>q\<rfloor> else impl v
      | PosInf \<Rightarrow> impl v)"

section \<open>Monetary text (internal/scraper/sources/bizbuysell.go)\<close>

text \<open>\<open>parsePrice\<close>, statement by statement.\<close>

definition parsePrice :: "(float64 \<Rightarrow> int) \<Rightarrow> string \<Rightarrow> int" where
  "parsePrice impl text0 =
     (if text0 = [] then 0
      else
        let text = ToLower text0;
            text = remove_all text ''$'';
            text = remove_all text '','';
            text = remove_all text ''asking price'';
            text = remove_all text ''cash flow'';
            text = remove_all text ''revenue'';
            text = TrimSpace text;
            text = (if Contains text ''-''
                    then TrimSpace (takeWhile (\<lambda>c. c \<noteq> CHR ''-'') text) else text)
        in if Contains text ''disclosed'' \<or> Contains text ''call'' \<or>
              Contains text ''contact'' \<or> Contains text ''n/a''
           then 0
           else
             let match = FindString_num text
             in if match = [] then 0
                else (case ParseFloat match of
                        None \<Rightarrow> 0
                      | Some val \<Rightarrow>
                          let val = (if Contains text ''m'' \<or> Contains text ''mil''
                                     then fmul val 1000000
                                     else if Contains text ''k'' then fmul val 1000
                                     else val)
                          in int64_of_float64 impl (fmul val 100)))"

text \<open>
  How the scrapers use it for a monetary field of a listing, which starts as \<open>nil\<close>:
  \<open>if price := parsePrice(priceText); price > 0 { listing.AskingPrice = &price }\<close>.
\<close>

definition price_field :: "(float64 \<Rightarrow> int) \<Rightarrow> string \<Rightarrow> int option" where
  "price_field impl priceText =
     (let price = parsePrice impl priceText in if price > 0 then Some price else None)"

section \<open>Scrapers (internal/scraper/sources)\<close>

text \<open>
  The context of a run, as the scrapers consult it: only in the \<open>select\<close> around a
  send on the listing channel. \<open>ctx k\<close> tells whether the \<open>select\<close> of the send that
  is attempted after \<open>k\<close> listings were sent takes the case \<open>ctx.Done()\<close>.
\<close>

type_synonym ctx_done = "nat \<Rightarrow> bool"

text \<open>\<open>maxPages\<close>, as every scraper computes it.\<close>

definition max_pages :: "ScrapeOptions \<Rightarrow> int" where
  "max_pages opts = (if MaxListings opts > 0 then MaxListings opts div 20 + 1 else 50)"

definition at_cap :: "ScrapeOptions \<Rightarrow> int \<Rightarrow> bool" where
  "at_cap opts count = (MaxListings opts > 0 \<and> count \<ge> MaxListings opts)"

subsection \<open>BizBuySellRodScraper (bizbuysell\_rod.go)\<close>

text \<open>
  What the browser shows for one page of results: the result of
  \<open>browser.NavigateWithRetry\<close>, of \<open>page.HTML()\<close>, the page title, and the result of
  \<open>parseListingsFromPage\<close>. A site maps the page number to it.
\<close>

record page_view =
  nav_error :: "string option"
  html :: "string + string"
  page_title :: string
  parsed :: "string + listing list"

type_synonym site = "int \<Rightarrow> page_view"

datatype scrape_error =
  GetPageFailed string
| NavigateFailed int string
| GetHTMLFailed string
| AccessBlocked int string
| ParsePageFailed int string

definition is_blocked :: "string \<Rightarrow> bool" where
  "is_blocked h =
     (let htmlLower = ToLower h
      in Contains htmlLower ''access denied'' \<or> Contains htmlLower ''captcha'' \<or>
         Contains htmlLower ''blocked'' \<or> Contains htmlLower ''cloudflare'' \<or>
         Contains htmlLower ''just a moment'')"

text \<open>
  The result of a run: the listings sent, the errors sent, and the page numbers that
  were navigated to, each in order.
\<close>

record scrape_run =
  sent :: "listing list"
  errs :: "scrape_error list"
  navigated :: "int list"

datatype loop_exit = Continue | Return

text \<open>
  The inner loop \<open>for _, listing := range pageListings\<close>; the state is \<open>count\<close> and
  the listings sent so far.
\<close>

fun send_page ::
  "ScrapeOptions \<Rightarrow> ctx_done \<Rightarrow> listing list \<Rightarrow> int \<times> listing list \<Rightarrow>
   loop_exit \<times> int \<times> listing list" where
  "send_page opts ctx [] (count, out) = (Continue, count, out)"
| "send_page opts ctx (l # ls) (count, out) =
     (if at_cap opts count then (Return, count, out)
      else if ctx (length out) then (Return, count, out)
      else send_page opts ctx ls (count + 1, out @ [l]))"

text \<open>The outer loop \<open>for pageNum <= maxPages\<close>.\<close>

function rod_pages ::
  "site \<Rightarrow> ScrapeOptions \<Rightarrow> ctx_done \<Rightarrow> int \<Rightarrow> int \<Rightarrow> int \<Rightarrow> scrape_run \<Rightarrow> scrape_run" where
  "rod_pages st opts ctx maxPages pageNum count run =
     (if pageNum \<le> maxPages then
        (let run1 = run\<lparr>navigated := navigated run @ [pageNum]\<rparr> in
         case nav_error (st pageNum) of
           Some err \<Rightarrow> run1\<lparr>errs := errs run1 @ [NavigateFailed pageNum err]\<rparr>
         | None \<Rightarrow>
            (case html (st pageNum) of
               Inl err \<Rightarrow> run1\<lparr>errs := errs run1 @ [GetHTMLFailed err]\<rparr>
             | Inr h \<Rightarrow>
                if is_blocked h
                then run1\<lparr>errs := errs run1 @
                       [AccessBlocked pageNum (page_title (st pageNum))]\<rparr>
                else
                  (case parsed (st pageNum) of
                     Inl err \<Rightarrow> run1\<lparr>errs := errs run1 @ [ParsePageFailed pageNum err]\<rparr>
                   | Inr pageListings \<Rightarrow>
                      if pageListings = [] then run1
                      else
                        (case send_page opts ctx pageListings (count, sent run1) of
                           (Return, count', out) \<Rightarrow> run1\<lparr>sent := out\<rparr>
                         | (Continue, count', out) \<Rightarrow>
                             rod_pages st opts ctx maxPages (pageNum + 1) count'
                               (run1\<lparr>sent := out\<rparr>)))))
      else run)"
  by pat_completeness auto
termination
  by (relation "measure (\<lambda>(st, opts, ctx, maxPages, pageNum, count, run).
        nat (maxPages + 1 - pageNum))") auto

declare rod_pages.simps [simp del]

text \<open>
  \<open>BizBuySellRodScraper.Scrape\<close>; \<open>get_page\<close> is the error of \<open>pool.GetPage()\<close>, if
  any. Both channels are closed when the goroutine returns.
\<close>

definition Scrape_rod ::
  "string option \<Rightarrow> site \<Rightarrow> ctx_done \<Rightarrow> ScrapeOptions \<Rightarrow> scrape_run" where
  "Scrape_rod get_page st ctx opts =
     (case get_page of
        Some err \<Rightarrow> \<lparr>sent = [], errs = [GetPageFailed err], navigated = []\<rparr>
      | None \<Rightarrow>
          rod_pages st opts ctx (max_pages opts) 1 0 \<lparr>sent = [], errs = [], navigated = []\<rparr>)"

text \<open>
  The candidates on the pages that the loop reaches when nothing stops it but the
  pages themselves: the listings of page \<open>pageNum\<close>, of the next page, and so on, up
  to \<open>maxPages\<close> or the first page that fails, is blocked or has no listing.
\<close>

function page_cards :: "site \<Rightarrow> int \<Rightarrow> int \<Rightarrow> listing list" where
  "page_cards st maxPages pageNum =
     (if pageNum \<le> maxPages then
        (case nav_error (st pageNum) of
           Some err \<Rightarrow> []
         | None \<Rightarrow>
            (case html (st pageNum) of
               Inl err \<Rightarrow> []
             | Inr h \<Rightarrow>
                if is_blocked h then []
                else
                  (case parsed (st pageNum) of
                     Inl err \<Rightarrow> []
                   | Inr pageListings \<Rightarrow>
                      if pageListings = [] then []
                      else pageListings @ page_cards st maxPages (pageNum + 1))))
      else [])"
  by pat_completeness auto
termination
  by (relation "measure (\<lambda>(st, maxPages, pageNum). nat (maxPages + 1 - pageNum))") auto

declare page_cards.simps [simp del]

subsection \<open>BizBuySellScraper (bizbuysell.go)\<close>

text \<open>
  The static scraper registers callbacks on a colly collector, which is not part of
  the repository. A crawl is the sequence of callback invocations that the collector
  makes:
  \<^item> \<open>OnCard p d\<close>: the handler of \<open>div.listing, \<dots>\<close> or of \<open>div[data-listing-id]\<close>
    runs on an element for which \<open>parseListingCard\<close> (or \<open>parseDataListing\<close>) returns
    \<open>p\<close>; \<open>d\<close> tells whether the \<open>select\<close> of its send takes \<open>ctx.Done()\<close>;
  \<^item> \<open>OnNext href\<close>: the handler of the pagination link runs on a link with that
    \<open>href\<close>;
  \<^item> \<open>OnError e\<close>: the error handler runs.
  The state is \<open>count\<close>, \<open>pageCount\<close>, the listings sent, and the URLs passed to
  \<open>e.Request.Visit\<close>.
\<close>

datatype callback = OnCard "listing option" bool | OnNext string | OnError string

record colly_state =
  count :: int
  pageCount :: int
  emitted :: "listing list"
  visits :: "string list"

fun colly_step :: "ScrapeOptions \<Rightarrow> colly_state \<Rightarrow> callback \<Rightarrow> colly_state" where
  "colly_step opts s (OnCard p d) =
     (if at_cap opts (count s) then s
      else case p of
             None \<Rightarrow> s
           | Some l \<Rightarrow> if d then s
                       else s\<lparr>count := count s + 1, emitted := emitted s @ [l]\<rparr>)"
| "colly_step opts s (OnNext nextURL) =
     (if at_cap opts (count s) then s
      else if pageCount s \<ge> max_pages opts then s
      else
        (let s1 = s\<lparr>pageCount := pageCount s + 1\<rparr> in
         if nextURL \<noteq> [] \<and> \<not> HasPrefix nextURL ''javascript:''
         then s1\<lparr>visits := visits s1 @
                [if \<not> HasPrefix nextURL ''http''
                 then ''https://www.bizbuysell.com'' @ nextURL else nextURL]\<rparr>
         else s1))"
| "colly_step opts s (OnError e) = s"

definition colly_crawl :: "ScrapeOptions \<Rightarrow> callback list \<Rightarrow> colly_state" where
  "colly_crawl opts cbs =
     foldl (colly_step opts) \<lparr>count = 0, pageCount = 0, emitted = [], visits = []\<rparr> cbs"

text \<open>The candidates that a crawl hands to the card handlers.\<close>

fun cards_of :: "callback list \<Rightarrow> listing list" where
  "cards_of [] = []"
| "cards_of (OnCard (Some l) d # cbs) = l # cards_of cbs"
| "cards_of (cb # cbs) = cards_of cbs"

section \<open>Rate limiter and refresh trigger (internal/api)\<close>

record RateLimiter =
  requests :: "string \<rightharpoonup> time list"
  limit :: int
  window :: int

definition NewRateLimiter :: "int \<Rightarrow> int \<Rightarrow> RateLimiter" where
  "NewRateLimiter n w = \<lparr>requests = Map.empty, limit = n, window = w\<rparr>"

text \<open>The value of \<open>rl.requests[key]\<close>: the \<open>nil\<close> slice for a key that is not in the map.\<close>

definition requests_of :: "RateLimiter \<Rightarrow> string \<Rightarrow> time list" where
  "requests_of rl key = (case requests rl key of None \<Rightarrow> [] | Some ts \<Rightarrow> ts)"

text \<open>\<open>RateLimiter.Allow\<close>, with \<open>now\<close> the reading of \<open>time.Now()\<close>.\<close>

definition Allow :: "RateLimiter \<Rightarrow> time \<Rightarrow> string \<Rightarrow> bool \<times> RateLimiter" where
  "Allow rl now key =
     (let windowStart = now - window rl;
          valid = filter (\<lambda>t. windowStart < t) (requests_of rl key)
      in if int (length valid) \<ge> limit rl
         then (False, rl\<lparr>requests := (requests rl)(key \<mapsto> valid)\<rparr>)
         else (True, rl\<lparr>requests := (requests rl)(key \<mapsto> valid @ [now])\<rparr>))"

text \<open>\<open>RateLimiter.cleanup\<close>, run once a minute by a goroutine of its own.\<close>

definition cleanup :: "RateLimiter \<Rightarrow> time \<Rightarrow> RateLimiter" where
  "cleanup rl now =
     rl\<lparr>requests := (\<lambda>key.
        case requests rl key of
          None \<Rightarrow> None
        | Some ts \<Rightarrow>
            (let valid = filter (\<lambda>t. now - window rl < t) ts
             in if valid = [] then None else Some valid))\<rparr>"

text \<open>
  A response: status code, headers set, and body. The bodies are those of the
  helpers of package handlers (\<open>Error\<close> writes \<open>APIError{Error: message, RequestID}\<close>,
  \<open>Accepted\<close> writes the message and the status) and the literal of the middleware.
\<close>

datatype body =
  ErrorBody string string
| AcceptedBody string string
| RawBody string

record response =
  StatusCode :: nat
  Header :: "(string \<times> string) list"
  Body :: body

record request =
  RemoteAddr :: string
  query_source :: string
  request_id :: string

definition JSON :: "nat \<Rightarrow> body \<Rightarrow> response" where
  "JSON status data =
     \<lparr>StatusCode = status, Header = [(''Content-Type'', ''application/json'')], Body = data\<rparr>"

definition Error :: "request \<Rightarrow> nat \<Rightarrow> string \<Rightarrow> response" where
  "Error r status message = JSON status (ErrorBody message (request_id r))"

definition TooManyRequests :: "request \<Rightarrow> string \<Rightarrow> response" where
  "TooManyRequests r message =
     Error r 429 (if message = [] then ''Too many requests'' else message)"

definition InternalError :: "request \<Rightarrow> string \<Rightarrow> response" where
  "InternalError r message =
     Error r 500 (if message = [] then ''Internal server error'' else message)"

definition Accepted :: "body \<Rightarrow> response" where
  "Accepted data = JSON 202 data"

text \<open>The job that \<open>queueScrapeJob\<close> inserts into the queue.\<close>

datatype queued = QueueScrapeAll | QueueScrape ScrapeJobArgs

definition queueScrapeJob :: "string \<Rightarrow> queued" where
  "queueScrapeJob sourceSlug =
     (if sourceSlug = [] then QueueScrapeAll
      else QueueScrape
             \<lparr>ArgSourceSlug = sourceSlug, ArgMaxListings = 0, ArgFullScrape = False\<rparr>)"

record SourceHandler =
  dbURL :: string
  rateLimiter :: RateLimiter

definition Hour :: int where
  "Hour = 3600 * Second"

definition NewSourceHandler :: "string \<Rightarrow> SourceHandler" where
  "NewSourceHandler url = \<lparr>dbURL = url, rateLimiter = NewRateLimiter 1 Hour\<rparr>"

text \<open>
  \<open>SourceHandler.TriggerRefresh\<close>; \<open>queue_ok\<close> tells whether the queue accepted the
  job. The result is the response, the handler with its limiter, and the job queued,
  if any.
\<close>

definition TriggerRefresh ::
  "SourceHandler \<Rightarrow> time \<Rightarrow> bool \<Rightarrow> request \<Rightarrow> response \<times> SourceHandler \<times> queued option" where
  "TriggerRefresh h now queue_ok r =
     (let (ok, rl) = Allow (rateLimiter h) now (RemoteAddr r);
          h' = h\<lparr>rateLimiter := rl\<rparr>
      in if \<not> ok
         then (TooManyRequests r
                 ''Refresh is limited to once per hour. Please try again later.'',
               h', None)
         else if \<not> queue_ok
         then (InternalError r ''Failed to queue refresh job'', h', None)
         else (Accepted (AcceptedBody
                 (if query_source r \<noteq> []
                  then ''Refresh job queued for '' @ query_source r
                  else ''Refresh job queued for all sources'') ''queued''),
               h', Some (queueScrapeJob (query_source r))))"

text \<open>
  \<open>RateLimiter.Middleware\<close>: the other place that rejects a rate-limited request;
  \<open>None\<close> stands for the call of the next handler.
\<close>

definition Middleware :: "RateLimiter \<Rightarrow> time \<Rightarrow> request \<Rightarrow> response option \<times> RateLimiter" where
  "Middleware rl now r =
     (let (ok, rl') = Allow rl now (RemoteAddr r)
      in if \<not> ok
         then (Some \<lparr>StatusCode = 429,
                     Header = [(''Content-Type'', ''application/json''), (''Retry-After'', ''60'')],
                     Body = RawBody ''{\"error\":\"Too many requests\",\"code\":\"rate_limited\"}''\<rparr>,
               rl')
         else (None, rl'))"

subsection \<open>A limiter over time\<close>

text \<open>
  The life of a limiter: calls of \<open>Allow\<close> and ticks of the cleanup goroutine, each
  with its reading of the clock. \<open>limiter_run\<close> returns the limiter after the events
  and the calls that were allowed, in order.
\<close>

datatype limiter_event = AllowCall time string | CleanupTick time

fun event_time :: "limiter_event \<Rightarrow> time" where
  "event_time (AllowCall now key) = now"
| "event_time (CleanupTick now) = now"

fun limiter_step ::
  "RateLimiter \<times> (time \<times> string) list \<Rightarrow> limiter_event \<Rightarrow> RateLimiter \<times> (time \<times> string) list" where
  "limiter_step (rl, acc) (AllowCall now key) =
     (let (ok, rl') = Allow rl now key in (rl', if ok then acc @ [(now, key)] else acc))"
| "limiter_step (rl, acc) (CleanupTick now) = (cleanup rl now, acc)"

definition limiter_run ::
  "RateLimiter \<Rightarrow> limiter_event list \<Rightarrow> RateLimiter \<times> (time \<times> string) list" where
  "limiter_run rl evs = foldl limiter_step (rl, []) evs"

text \<open>The times at which calls of one key were allowed.\<close>

definition allowed_times :: "(time \<times> string) list \<Rightarrow> string \<Rightarrow> time list" where
  "allowed_times acc key = map fst (filter (\<lambda>p. snd p = key) acc)"

section \<open>Scenario data\<close>

text \<open>
  The records of the scenario of the specification: a source \<open>alpha\<close> and a scraper
  yielding \<open>Shop A\<close> (external id 1, with a price) and \<open>Shop B\<close> (external id 2), built
  as Go literals that set only these fields (\<open>zero_Listing\<close> is the zero value of
  \<open>domain.Listing\<close>), and the same records built as the scrapers of the repository
  build them, with \<open>ID: uuid.New()\<close>. The context is live and the database is up
  unless a run says otherwise.
\<close>

definition zero_Listing :: listing where
  "zero_Listing =
     \<lparr>ID = uuid_Nil, SourceID = uuid_Nil, ExternalID = [], URL = [], Title = [],
      Description = [], AskingPrice = None, Revenue = None, CashFlow = None, EBITDA = None,
      Inventory = None, RealEstateIncluded = False, RealEstateValue = None,
      City = [], State = [], ZipCode = [], Country = [], Lat = None, Lng = None,
      Industry = [], IndustryCategory = [], BusinessType = [],
      YearEstablished = None, Employees = None, ReasonForSale = [],
      LeaseExpiration = None, MonthlyRent = None, IsFranchise = False, FranchiseName = [],
      RawData = [], FirstSeenAt = 0, LastSeenAt = 0, IsActive = False\<rparr>"

definition shop_A :: "int \<Rightarrow> listing" where
  "shop_A price =
     zero_Listing\<lparr>ExternalID := ''1'', Title := ''Shop A'', AskingPrice := Some price\<rparr>"

definition shop_B :: listing where
  "shop_B = zero_Listing\<lparr>ExternalID := ''2'', Title := ''Shop B''\<rparr>"

definition alpha :: source where
  "alpha =
     \<lparr>SrcID = 7, Name = ''Alpha'', Slug = ''alpha'', BaseURL = [], ScraperType = ''colly'',
      SrcIsActive = True, Config = ''{}'', SrcCreatedAt = 1, UpdatedAt = 1\<rparr>"

definition alpha_db :: database where
  "alpha_db = \<lparr>sources = [alpha], listings = [], scrape_jobs = []\<rparr>"

definition live :: conn where
  "live = \<lparr>ctx_done = False, db_down = False\<rparr>"

definition alpha_world :: world where
  "alpha_world = \<lparr>the_db = alpha_db, the_conn = live, the_log = []\<rparr>"

definition first_run :: scraper where
  "first_run opts =
     [RecvListing (shop_A 20000000) 10 101 11, RecvListing shop_B 12 102 13, RecvErrorsClosed]"

definition second_run :: scraper where
  "second_run opts = [RecvListing (shop_A 21000000) 30 103 31, RecvErrorsClosed]"

definition first_run_with_ids :: scraper where
  "first_run_with_ids opts =
     [RecvListing (shop_A 20000000\<lparr>ID := 91\<rparr>) 10 101 11,
      RecvListing (shop_B\<lparr>ID := 92\<rparr>) 12 102 13, RecvErrorsClosed]"

definition failed_start :: scraper where
  "failed_start opts = [RecvError ''failed to start scrape: connection refused'', RecvErrorsClosed]"

definition cancelled_run :: scraper where
  "cancelled_run opts =
     [RecvListing (shop_A 20000000) 10 101 11, CtxDone,
      RecvListing shop_B 12 102 13, RecvErrorsClosed]"

definition env1 :: job_env where
  "env1 = \<lparr>new_job_id = 201, created_now = 5, started_now = 6, completed_now = 20\<rparr>"

definition env2 :: job_env where
  "env2 = \<lparr>new_job_id = 202, created_now = 25, started_now = 26, completed_now = 40\<rparr>"

definition engine_with :: "scraper \<Rightarrow> Engine" where
  "engine_with sc = RegisterScraper \<lparr>scrapers = Map.empty\<rparr> ''alpha'' sc"

text \<open>
  A candidate of source \<open>alpha\<close> whose \<open>IsActive\<close> is false, with the values of its
  first and of its second observation, and one that names its country, observed again
  with another country.
\<close>

definition inactive_first :: listing where
  "inactive_first = shop_B\<lparr>ID := 102, SourceID := 7, FirstSeenAt := 12, LastSeenAt := 12\<rparr>"

definition inactive_again :: listing where
  "inactive_again = shop_B\<lparr>ID := 103, SourceID := 7, FirstSeenAt := 30, LastSeenAt := 30\<rparr>"

definition in_US :: listing where
  "in_US = shop_B\<lparr>ID := 102, SourceID := 7, Country := ''US'', IsActive := True\<rparr>"

definition in_CA :: listing where
  "in_CA = shop_B\<lparr>ID := 104, SourceID := 7, Country := ''CA'', IsActive := True\<rparr>"

text \<open>
  A site whose result pages 1 to 50 hold ten listings each (500 in all), one whose
  pages hold a hundred each, one whose pages hold twenty each, a context that is never
  cancelled and one that is cancelled from the start, and a refresh request.
\<close>

definition ten_per_page :: site where
  "ten_per_page n =
     \<lparr>nav_error = None, html = Inr ''<html><body>for sale</body></html>'',
      page_title = ''Businesses for sale'',
      parsed = Inr (if 1 \<le> n \<and> n \<le> 50 then replicate 10 shop_B else [])\<rparr>"

definition hundred_per_page :: site where
  "hundred_per_page n =
     \<lparr>nav_error = None, html = Inr ''<html><body>for sale</body></html>'',
      page_title = ''Businesses for sale'',
      parsed = Inr (if 1 \<le> n \<and> n \<le> 50 then replicate 100 shop_B else [])\<rparr>"

definition twenty_per_page :: site where
  "twenty_per_page n =
     \<lparr>nav_error = None, html = Inr ''<html><body>for sale</body></html>'',
      page_title = ''Businesses for sale'',
      parsed = Inr (if 1 \<le> n \<and> n \<le> 50 then replicate 20 shop_B else [])\<rparr>"

definition never_done :: ctx_done where
  "never_done k = False"

definition always_done :: ctx_done where
  "always_done k = True"

definition refresh_request :: request where
  "refresh_request =
     \<lparr>RemoteAddr = ''203.0.113.7:51234'', query_source = ''alpha'', request_id = ''req-1''\<rparr>"

section \<open>Invariants\<close>

text \<open>What every callback of the static scraper preserves.\<close>

definition colly_inv :: "ScrapeOptions \<Rightarrow> colly_state \<Rightarrow> bool" where
  "colly_inv opts s =
     (count s = int (length (emitted s)) \<and>
      (MaxListings opts > 0 \<longrightarrow> count s \<le> MaxListings opts) \<and>
      int (length (visits s)) \<le> pageCount s \<and> pageCount s \<le> max_pages opts)"

section \<open>Verification\<close>

subsection \<open>Upsert\<close>

text \<open>A statement that is given a context that is done writes nothing.\<close>

lemma Upsert_ctx_done: "ctx_done c \<Longrightarrow> Upsert c db l = Inl ContextDone"
  by (simp add: Upsert_def exec_error_def)

lemma UpdateScrapeJob_ctx_done: "ctx_done c \<Longrightarrow> UpdateScrapeJob c db job = Inl ContextDone"
  by (simp add: UpdateScrapeJob_def exec_error_def)

lemma conflicts_key: "conflicts r l = (key_of r = (SourceID l, ExternalID l))"
  by (auto simp: conflicts_def key_of_def)

lemma key_do_update_set: "key_of (do_update_set r l) = key_of r"
  by (simp add: key_of_def do_update_set_def search_vector_update_def)

lemma key_insert_values: "key_of (insert_values l) = (SourceID l, ExternalID l)"
  by (simp add: key_of_def insert_values_def search_vector_update_def)

text \<open>
  An upsert that succeeds never leaves two rows with one (source_id, external_id),
  and it leaves a row with the key of the candidate.
\<close>

lemma Upsert_unique_keys:
  assumes "unique_keys (listings db)" and "Upsert c db l = Inr db'"
  shows "unique_keys (listings db') \<and>
         (SourceID l, ExternalID l) \<in> set (map key_of (listings db'))"
proof (cases "\<exists>r \<in> set (listings db). conflicts r l")
  case True
  with assms(2) have db': "listings db' =
      map (\<lambda>r. if conflicts r l then do_update_set r l else r) (listings db)"
    by (auto simp: Upsert_def split: option.splits if_splits)
  have "map key_of (listings db') = map key_of (listings db)"
    unfolding db' by (induction "listings db") (simp_all add: key_do_update_set)
  moreover have "(SourceID l, ExternalID l) \<in> set (map key_of (listings db))"
  proof -
    from True obtain r where r: "r \<in> set (listings db)"
      "key_of r = (SourceID l, ExternalID l)" by (auto simp: conflicts_key)
    from r(1) have "key_of r \<in> set (map key_of (listings db))" by simp
    with r(2) show ?thesis by simp
  qed
  ultimately show ?thesis using assms(1) by (simp add: unique_keys_def)
next
  case False
  with assms(2) have db': "listings db' = listings db @ [insert_values l]"
    by (auto simp: Upsert_def split: option.splits if_splits)
  have "(SourceID l, ExternalID l) \<notin> set (map key_of (listings db))"
  proof
    assume "(SourceID l, ExternalID l) \<in> set (map key_of (listings db))"
    then obtain r where "r \<in> set (listings db)" "(SourceID l, ExternalID l) = key_of r"
      by auto
    with False show False by (auto simp: conflicts_key)
  qed
  then show ?thesis
    using assms(1) by (simp add: db' unique_keys_def key_insert_values)
qed

text \<open>
  C1. The claim says that a second \<open>Upsert\<close> of the same candidate leaves every field
  but \<open>last_seen_at\<close> as the first call stored it. The \<open>VALUES\<close> clause stores the
  candidate's own \<open>IsActive\<close> (\<open>$33\<close>), the \<open>DO UPDATE SET\<close> list stores
  \<open>is_active = true\<close>. A candidate of source \<open>alpha\<close> with \<open>IsActive = false\<close> is
  stored inactive by the first call; the second call, for the same key with the same
  field values, makes the row active. There is one row, it keeps its id and
  \<open>first_seen_at\<close>, and \<open>last_seen_at\<close> advances, as the claim says.
\<close>

theorem Upsert_twice_flips_is_active:
  "Upsert live alpha_db inactive_first =
     Inr (alpha_db\<lparr>listings := [insert_values inactive_first]\<rparr>) \<and>
   inactive_again = inactive_first\<lparr>ID := 103, FirstSeenAt := 30, LastSeenAt := 30\<rparr> \<and>
   Upsert live (alpha_db\<lparr>listings := [insert_values inactive_first]\<rparr>) inactive_again =
     Inr (alpha_db\<lparr>listings :=
       [search_vector_update (inactive_first\<lparr>LastSeenAt := 30, IsActive := True\<rparr>)]\<rparr>) \<and>
   IsActive (cols (insert_values inactive_first)) = False \<and>
   (ID inactive_first, FirstSeenAt inactive_first, LastSeenAt inactive_first) = (102, 12, 12)"
  by code_simp

text \<open>
  C2. The claim says that an observation of a known key overwrites every location field
  with the scraped value, country included, and that the first observation stores
  \<open>first_seen_at = now\<close>. \<open>country\<close> is in the column list of the \<open>INSERT\<close> and
  missing from the \<open>DO UPDATE SET\<close> list: a row stored with country \<open>US\<close> keeps it
  when the same key is observed with country \<open>CA\<close>. And \<open>RunSource\<close> sets
  \<open>FirstSeenAt\<close> only for a candidate whose \<open>ID\<close> is nil: the records of the scrapers
  of the repository, which carry \<open>ID: uuid.New()\<close>, are inserted with the zero time.
\<close>

theorem Upsert_conflict_keeps_country:
  "Upsert live alpha_db in_US = Inr (alpha_db\<lparr>listings := [insert_values in_US]\<rparr>) \<and>
   in_CA = in_US\<lparr>ID := 104, Country := ''CA''\<rparr> \<and>
   Upsert live (alpha_db\<lparr>listings := [insert_values in_US]\<rparr>) in_CA =
     Inr (alpha_db\<lparr>listings := [insert_values in_US]\<rparr>) \<and>
   Country (cols (insert_values in_US)) = ''US'' \<and>
   map (\<lambda>r. (ExternalID (cols r), FirstSeenAt (cols r)))
     (listings (the_db (snd (RunSource (engine_with first_run_with_ids) env1 alpha_world
        ''alpha'' 0))))
     = [(''1'', 0), (''2'', 0)]"
  by code_simp

subsection \<open>MarkStale\<close>

text \<open>
  C8. \<open>MarkStale s t\<close> sets \<open>is_active\<close> to false on the rows with \<open>source_id = s\<close>
  and \<open>last_seen_at < t\<close>, and changes nothing else: a row of another source, or with
  \<open>last_seen_at \<ge> t\<close>, is left as it is, every other column of a swept row is left as
  it is, and the table keeps all its rows, in place.
\<close>

theorem MarkStale_frame:
  "snd (MarkStale tbl s t) =
     map (\<lambda>r. if SourceID (cols r) = s \<and> LastSeenAt (cols r) < t
              then r\<lparr>cols := (cols r)\<lparr>IsActive := False\<rparr>\<rparr> else r) tbl
   \<and> length (snd (MarkStale tbl s t)) = length tbl"
  unfolding MarkStale_def stale_where_def
  by (auto intro!: map_cong)

subsection \<open>RunSource\<close>

text \<open>
  The counters of the drain loop: every listing received is counted as found, and as
  new or updated by the test \<open>listing.ID == uuid.Nil\<close> alone.
\<close>

lemma drain_counts:
  "found (drain src evs s) = found s + int (length (filter (\<lambda>e. case e of RecvListing l t1 u t2 \<Rightarrow> True | _ \<Rightarrow> False) evs))
 \<and> created (drain src evs s) = created s + int (length (filter (\<lambda>e. case e of RecvListing l t1 u t2 \<Rightarrow> ID l = uuid_Nil | _ \<Rightarrow> False) evs))
 \<and> updated (drain src evs s) = updated s + int (length (filter (\<lambda>e. case e of RecvListing l t1 u t2 \<Rightarrow> ID l \<noteq> uuid_Nil | _ \<Rightarrow> False) evs))"
  unfolding drain_def
proof (induction evs arbitrary: s)
  case Nil
  then show ?case by simp
next
  case (Cons e evs)
  show ?case by (cases e) (simp_all add: Cons Let_def)
qed

text \<open>
  C3. The claim says that a record counts as new when no row exists yet for its key and
  as updated otherwise. \<open>RunSource\<close> tests \<open>listing.ID == uuid.Nil\<close> on the candidate
  and never reads the table. In the scenario of the specification, with records that
  leave \<open>ID\<close> unset, the first run gives found 2, new 2, updated 0, and the second run,
  which observes external id 1 again with a new price, gives found 1, new 1, updated 0
  (the claim: new 0, updated 1) while the stored price is updated. With records built
  as the scrapers of the repository build them (\<open>ID: uuid.New()\<close>), the first run
  gives found 2, new 0, updated 2 (the claim: new 2, updated 0).
\<close>

theorem RunSource_scenario_counts:
  "map (\<lambda>j. (ListingsFound j, ListingsNew j, ListingsUpdated j))
     (scrape_jobs (the_db (snd (RunSource (engine_with second_run) env2
        (snd (RunSource (engine_with first_run) env1 alpha_world ''alpha'' 0)) ''alpha'' 0))))
     = [(2, 2, 0), (1, 1, 0)]
   \<and> map (\<lambda>r. (ExternalID (cols r), AskingPrice (cols r)))
     (listings (the_db (snd (RunSource (engine_with second_run) env2
        (snd (RunSource (engine_with first_run) env1 alpha_world ''alpha'' 0)) ''alpha'' 0))))
     = [(''1'', Some 21000000), (''2'', None)]
   \<and> map (\<lambda>j. (ListingsFound j, ListingsNew j, ListingsUpdated j))
     (scrape_jobs (the_db (snd (RunSource (engine_with first_run_with_ids) env1 alpha_world
        ''alpha'' 0))))
     = [(2, 0, 2)]"
  by code_simp

text \<open>
  C4. The claim says that a run whose scrape could not start is finalized as failed
  with a message, and that no job is left in \<open>running\<close>. \<open>RunSource\<close> sets the status
  \<open>completed\<close> whatever arrived on the error stream, and it only logs an error of
  \<open>UpdateScrapeJob\<close>:
  \<^item> a run whose scraper sends \<open>failed to start scrape\<close> on the error stream and
    closes both streams returns \<open>nil\<close>, and its job is \<open>completed\<close> with an empty
    error message and found 0;
  \<^item> \<open>ScrapeJobWorker.Work\<close>, around that run, records \<open>completed\<close> in its own job
    too, as \<open>RunSource\<close> returned \<open>nil\<close>; when \<open>RunSource\<close> returns an error (here: no
    scraper is registered) \<open>Work\<close> does record \<open>failed\<close> with the message;
  \<^item> a run whose context is cancelled while it drains leaves its job in \<open>running\<close>:
    the \<open>UPDATE\<close> is not executed, and the error is logged.
\<close>

theorem RunSource_failed_start_is_completed:
  "map (\<lambda>j. (Status j, ErrorMessage j, ListingsFound j))
     (scrape_jobs (the_db (snd (RunSource (engine_with failed_start) env1 alpha_world
        ''alpha'' 0))))
     = [(''completed'', [], 0)] \<and>
   fst (RunSource (engine_with failed_start) env1 alpha_world ''alpha'' 0) = None \<and>
   map (\<lambda>j. (JobID j, Status j, ErrorMessage j))
     (scrape_jobs (the_db (snd (Work (engine_with failed_start) env2 env1 alpha_world
        \<lparr>ArgSourceSlug = ''alpha'', ArgMaxListings = 0, ArgFullScrape = True\<rparr>))))
     = [(202, ''completed'', []), (201, ''completed'', [])] \<and>
   map (\<lambda>j. (JobID j, Status j, ErrorMessage j))
     (scrape_jobs (the_db (snd (Work \<lparr>scrapers = Map.empty\<rparr> env2 env1 alpha_world
        \<lparr>ArgSourceSlug = ''alpha'', ArgMaxListings = 0, ArgFullScrape = True\<rparr>))))
     = [(202, ''failed'', ''no scraper registered for: alpha'')] \<and>
   map (\<lambda>j. (Status j, CompletedAt j))
     (scrape_jobs (the_db (snd (RunSource (engine_with cancelled_run) env1 alpha_world
        ''alpha'' 0))))
     = [(''running'', None)] \<and>
   LogUpdateJobFailed ContextDone \<in>
     set (the_log (snd (RunSource (engine_with cancelled_run) env1 alpha_world ''alpha'' 0)))"
  by code_simp

subsection \<open>ScrapeJobWorker\<close>

text \<open>
  C10. The \<open>FullScrape\<close> argument of a scheduled job has no effect: for both values of
  the flag, \<open>Work\<close> returns the same error and leaves the same database and log.
  \<open>RunSource\<close> calls the scraper with \<open>FullScrape = true\<close>, the given limit and a rate
  limit of two seconds, and with no other options: what the scraper would do for other
  options has no influence on the run.
\<close>

theorem Work_ignores_FullScrape:
  "Work e wenv env w (args\<lparr>ArgFullScrape := b\<rparr>) = Work e wenv env w args \<and>
   RunSource e env w slug n =
     RunSource (e\<lparr>scrapers := map_option (\<lambda>sc opts. sc
        \<lparr>FullScrape = True, MaxListings = n, RateLimit = 2000000000, LastScrapeAt = 0\<rparr>)
          \<circ> scrapers e\<rparr>) env w slug n"
  by (simp add: Work_def RunSource_def run_opts_def Second_def Let_def
      split: option.split sum.split)

subsection \<open>parsePrice\<close>

lemma round_even_of_int: "round_even (of_int k) = k"
  by (simp add: round_even_def)

lemma ilog2_of_int_le:
  assumes "0 < n" "n < 2 ^ 53"
  shows "ilog2 (of_int n) \<le> 52"
proof -
  have "bitlen n \<le> 53" using assms by (simp add: bitlen_le_iff_power)
  moreover have "bitlen 1 = 1" by (simp add: bitlen_alt_def)
  ultimately show ?thesis
    by (simp add: ilog2_def quotient_of_int Let_def)
qed

text \<open>An integer below \<open>2\<^sup>5\<^sup>3\<close> is a \<open>float64\<close>: rounding keeps it.\<close>

lemma round_float64_of_int:
  assumes "0 \<le> n" "n < 2 ^ 53"
  shows "round_float64 (of_int n) = Finite (of_int n)"
proof (cases "n = 0")
  case True
  then show ?thesis by (simp add: round_float64_def)
next
  case False
  with assms have pos: "0 < n" by simp
  define e where "e = max (ilog2 (of_int n)) (- 1022)"
  have e: "e \<le> 52" "- 1022 \<le> e"
    using ilog2_of_int_le [OF pos assms(2)] by (simp_all add: e_def)
  have u: "pow2 (e - 52) = 1 / 2 ^ nat (52 - e)"
    using e by (cases "e = 52") (simp_all add: pow2_def)
  have "of_int n / pow2 (e - 52) = (of_int (n * 2 ^ nat (52 - e)) :: rat)"
    by (simp add: u)
  then have r: "round_even (of_int n / pow2 (e - 52)) = n * 2 ^ nat (52 - e)"
    by (simp only: round_even_of_int)
  have v: "of_int (n * 2 ^ nat (52 - e)) * pow2 (e - 52) = (of_int n :: rat)"
    by (simp add: u)
  have "(of_int n :: rat) < of_int (2 ^ 53)"
    using assms(2) by (simp only: of_int_less_iff)
  also have "\<dots> \<le> pow2 1024" by (simp add: pow2_def)
  finally have b: "\<not> pow2 1024 \<le> (of_int n :: rat)" by simp
  have "round_float64 (of_int n) =
          (if pow2 1024 \<le> of_int (round_even (of_int n / pow2 (e - 52))) * pow2 (e - 52)
           then PosInf
           else Finite (of_int (round_even (of_int n / pow2 (e - 52))) * pow2 (e - 52)))"
    using False by (simp add: round_float64_def Let_def e_def)
  also have "\<dots> = Finite (of_int n)"
    unfolding r v using b by simp
  finally show ?thesis .
qed

lemma round_float64_numeral:
  "numeral k < (2 ^ 53 :: int) \<Longrightarrow> round_float64 (numeral k) = Finite (numeral k)"
  using round_float64_of_int [of "numeral k"] by simp

lemma round_float64_one: "round_float64 1 = Finite 1"
  using round_float64_of_int [of 1] by simp

text \<open>
  Two amounts with cents: the nearest \<open>float64\<close> to 19.99 and to 1.15 (which is
  \<open>23 / 20\<close>), and their products with 100 in \<open>float64\<close>, which lie below 1999
  and below 115.
\<close>

lemma round_float64_19_99:
  "round_float64 (1999 / 100) = Finite (5626684784446013 / 281474976710656)"
  by code_simp

lemma fmul_19_99:
  "fmul (Finite (5626684784446013 / 281474976710656)) 100
     = Finite (8791694975696895 / 4398046511104)"
  by code_simp

lemma floor_19_99: "\<lfloor>8791694975696895 / 4398046511104 :: rat\<rfloor> = 1998"
  by (rule floor_unique) simp_all

lemma round_float64_1_15:
  "round_float64 (23 / 20) = Finite (2589569785738035 / 2251799813685248)"
  by code_simp

lemma fmul_1_15:
  "fmul (Finite (2589569785738035 / 2251799813685248)) 100
     = Finite (8092405580431359 / 70368744177664)"
  by code_simp

lemma floor_1_15: "\<lfloor>8092405580431359 / 70368744177664 :: rat\<rfloor> = 114"
  by (rule floor_unique) simp_all

lemmas string_defs = ToLower_def ascii_upper_def ascii_lower_def HasPrefix_def TrimSpace_def
  is_space_def is_digit_def is_num_char_def FindString_num_def digit_val_def digits_val_def

lemmas price_defs = parsePrice_def ParseFloat_def Let_def round_float64_numeral
  round_float64_one int64_of_float64_def price_field_def

text \<open>
  The four reference vectors: \<open>$1,250,000\<close> is 125000000 cents, \<open>$500K\<close> is
  50000000, \<open>$1M - $2M\<close> is 100000000 (the lower bound of the range), and
  \<open>Call for price\<close> leaves the monetary field of the listing without a value
  (\<open>parsePrice\<close> returns 0 for it, which the scraper does not store).
\<close>

lemma parsePrice_vectors:
  "parsePrice impl ''$1,250,000'' = 125000000 \<and>
   parsePrice impl ''$500K'' = 50000000 \<and>
   parsePrice impl ''$1M - $2M'' = 100000000 \<and>
   parsePrice impl ''Call for price'' = 0 \<and>
   price_field impl ''Call for price'' = None \<and>
   price_field impl ''$1,250,000'' = Some 125000000"
  by (simp add: price_defs string_defs)

text \<open>
  C5. The four reference vectors hold. The general clause of the claim, that the text
  is converted to integer minor units and that the suffixes k and m are multipliers,
  does not hold of \<open>parsePrice\<close>: the product with 100 is computed in \<open>float64\<close> and
  truncated by \<open>int64(val * 100)\<close>, and a text counts as millions as soon as it
  contains the letter m anywhere. \<open>$19.99\<close> gives 1998 cents and \<open>$1.15\<close> gives 114,
  one cent short each; \<open>$5,000 per month\<close> gives 500000000000, the cents of five
  billion dollars, and the scraper stores it.
\<close>

theorem parsePrice_cents_truncated:
  "parsePrice impl ''$19.99'' = 1998 \<and>
   parsePrice impl ''$1.15'' = 114 \<and>
   parsePrice impl ''$5,000 per month'' = 500000000000 \<and>
   price_field impl ''$19.99'' = Some 1998 \<and>
   price_field impl ''$5,000 per month'' = Some 500000000000"
proof -
  have a: "parsePrice impl ''$19.99'' = 1998"
    by (simp add: price_defs string_defs round_float64_19_99 fmul_19_99 floor_19_99
        del: fmul.simps)
  have b: "parsePrice impl ''$1.15'' = 114"
    by (simp add: price_defs string_defs round_float64_1_15 fmul_1_15 floor_1_15
        del: fmul.simps)
  have c: "parsePrice impl ''$5,000 per month'' = 500000000000"
    by (simp add: price_defs string_defs)
  from a b c show ?thesis by (simp add: price_field_def)
qed

subsection \<open>The page loop of the browser scraper\<close>

lemma send_page_no_cancel:
  assumes "\<forall>k. \<not> ctx k" and "MaxListings opts = N" and "0 < N"
  shows "c \<le> N \<Longrightarrow>
         send_page opts ctx pl (c, out) =
           (if c + int (length pl) > N then Return else Continue,
            min (c + int (length pl)) N,
            out @ take (nat (N - c)) pl)"
proof (induction pl arbitrary: c out)
  case Nil
  then show ?case by simp
next
  case (Cons l ls)
  show ?case
  proof (cases "c = N")
    case True
    then show ?thesis using assms by (simp add: at_cap_def)
  next
    case False
    with Cons.prems have lt: "c < N" by simp
    then have le: "c + 1 \<le> N" by simp
    have n: "nat (N - c) = Suc (nat (N - (c + 1)))" using lt by simp
    have cap: "\<not> at_cap opts c" using lt assms(2) by (simp add: at_cap_def)
    have "send_page opts ctx (l # ls) (c, out) = send_page opts ctx ls (c + 1, out @ [l])"
      using cap assms(1) by simp
    also have "\<dots> = (if c + 1 + int (length ls) > N then Return else Continue,
            min (c + 1 + int (length ls)) N,
            (out @ [l]) @ take (nat (N - (c + 1))) ls)"
      by (rule Cons.IH [OF le])
    finally show ?thesis by (simp add: n add.assoc)
  qed
qed

lemma send_page_count:
  "send_page opts ctx pl (c, out) = (x, c', out') \<Longrightarrow> c = int (length out) \<Longrightarrow>
   MaxListings opts = N \<Longrightarrow> 0 < N \<Longrightarrow> c \<le> N \<Longrightarrow>
   c' = int (length out') \<and> c' \<le> N"
proof (induction pl arbitrary: c out)
  case Nil
  then show ?case by auto
next
  case (Cons l ls)
  show ?case
  proof (cases "at_cap opts c \<or> ctx (length out)")
    case True
    with Cons.prems show ?thesis by (auto split: if_splits)
  next
    case False
    then have lt: "c < N" using Cons.prems by (simp add: at_cap_def)
    from False Cons.prems(1)
    have "send_page opts ctx ls (c + 1, out @ [l]) = (x, c', out')" by simp
    from Cons.IH [OF this] Cons.prems lt show ?thesis by simp
  qed
qed

text \<open>One iteration of the page loop, by the way it leaves the iteration.\<close>

lemma rod_pages_iteration:
  obtains
    (finished) "\<not> pn \<le> mp" "rod_pages st opts ctx mp pn c run = run"
  | (stopped) "pn \<le> mp" "sent (rod_pages st opts ctx mp pn c run) = sent run"
      "navigated (rod_pages st opts ctx mp pn c run) = navigated run @ [pn]"
  | (returned) pl c' out where "pn \<le> mp"
      "send_page opts ctx pl (c, sent run) = (Return, c', out)"
      "sent (rod_pages st opts ctx mp pn c run) = out"
      "navigated (rod_pages st opts ctx mp pn c run) = navigated run @ [pn]"
  | (continued) pl c' out h where "pn \<le> mp"
      "send_page opts ctx pl (c, sent run) = (Continue, c', out)"
      "rod_pages st opts ctx mp pn c run =
         rod_pages st opts ctx mp (pn + 1) c' (run\<lparr>navigated := navigated run @ [pn], sent := out\<rparr>)"
      "nav_error (st pn) = None" "html (st pn) = Inr h" "\<not> is_blocked h"
      "parsed (st pn) = Inr pl" "pl \<noteq> []"
proof (cases "pn \<le> mp")
  case False
  then have "rod_pages st opts ctx mp pn c run = run"
    by (subst rod_pages.simps) simp
  with False show ?thesis by (rule finished)
next
  case True
  note unfold = rod_pages.simps [of st opts ctx mp pn c run]
  show ?thesis
  proof (cases "nav_error (st pn) = None \<and> (\<exists>h. html (st pn) = Inr h \<and> \<not> is_blocked h) \<and>
                (\<exists>pl. parsed (st pn) = Inr pl \<and> pl \<noteq> [])")
    case False
    with True have "sent (rod_pages st opts ctx mp pn c run) = sent run \<and>
        navigated (rod_pages st opts ctx mp pn c run) = navigated run @ [pn]"
      unfolding unfold
      by (auto simp: Let_def split: option.split sum.split)
    with True show ?thesis by (auto intro: stopped)
  next
    case good: True
    then obtain h pl where h: "nav_error (st pn) = None" "html (st pn) = Inr h" "\<not> is_blocked h"
      "parsed (st pn) = Inr pl" "pl \<noteq> []" by auto
    obtain x c' out where sp: "send_page opts ctx pl (c, sent run) = (x, c', out)"
      by (cases "send_page opts ctx pl (c, sent run)") auto
    show ?thesis
    proof (cases x)
      case Continue
      with True h sp have "rod_pages st opts ctx mp pn c run =
         rod_pages st opts ctx mp (pn + 1) c' (run\<lparr>navigated := navigated run @ [pn], sent := out\<rparr>)"
        unfolding unfold by (simp add: Let_def)
      with True sp Continue h show ?thesis by (auto intro: continued)
    next
      case Return
      with True h sp have "sent (rod_pages st opts ctx mp pn c run) = out \<and>
          navigated (rod_pages st opts ctx mp pn c run) = navigated run @ [pn]"
        unfolding unfold by (simp add: Let_def)
      with True sp Return show ?thesis by (auto intro: returned)
    qed
  qed
qed

lemma rod_pages_sent_le:
  assumes N: "MaxListings opts = N" "0 < N"
  shows "c = int (length (sent run)) \<Longrightarrow> c \<le> N \<Longrightarrow>
         int (length (sent (rod_pages st opts ctx mp pn c run))) \<le> N"
proof (induction "nat (mp + 1 - pn)" arbitrary: pn c run rule: less_induct)
  case less
  show ?case
  proof (cases rule: rod_pages_iteration [of pn mp st opts ctx c run])
    case finished
    with less.prems show ?thesis by simp
  next
    case stopped
    with less.prems show ?thesis by simp
  next
    case (returned pl c' out)
    from send_page_count [OF returned(2) less.prems(1) N less.prems(2)] returned(3)
    show ?thesis by simp
  next
    case (continued pl c' out h)
    have m: "nat (mp + 1 - (pn + 1)) < nat (mp + 1 - pn)" using continued(1) by simp
    from send_page_count [OF continued(2) less.prems(1) N less.prems(2)]
    have "c' = int (length (sent (run\<lparr>navigated := navigated run @ [pn], sent := out\<rparr>)))" "c' \<le> N"
      by simp_all
    from less.hyps [OF m this] continued(3) show ?thesis by simp
  qed
qed

lemma rod_pages_navigated:
  "set (navigated (rod_pages st opts ctx mp pn c run)) \<subseteq> set (navigated run) \<union> {pn..mp} \<and>
   length (navigated (rod_pages st opts ctx mp pn c run)) \<le>
     length (navigated run) + nat (mp + 1 - pn)"
proof (induction "nat (mp + 1 - pn)" arbitrary: pn c run rule: less_induct)
  case less
  show ?case
  proof (cases rule: rod_pages_iteration [of pn mp st opts ctx c run])
    case finished
    then show ?thesis by simp
  next
    case stopped
    then show ?thesis by auto
  next
    case (returned pl c' out)
    then show ?thesis by auto
  next
    case (continued pl c' out h)
    have m: "nat (mp + 1 - (pn + 1)) < nat (mp + 1 - pn)" using continued(1) by simp
    from less.hyps [OF m, of c' "run\<lparr>navigated := navigated run @ [pn], sent := out\<rparr>"]
      continued(1,3)
    show ?thesis by auto
  qed
qed

text \<open>
  Without cancellation, the listings sent are the first \<open>N - c\<close> candidates of the
  pages that the loop reaches.
\<close>

lemma rod_pages_sent:
  assumes nc: "\<forall>k. \<not> ctx k" and N: "MaxListings opts = N" "0 < N"
  shows "c \<le> N \<Longrightarrow>
         sent (rod_pages st opts ctx mp pn c run) =
           sent run @ take (nat (N - c)) (page_cards st mp pn)"
proof (induction "nat (mp + 1 - pn)" arbitrary: pn c run rule: less_induct)
  case less
  show ?case
  proof (cases "pn \<le> mp")
    case False
    then show ?thesis by (subst rod_pages.simps, subst page_cards.simps) simp
  next
    case True
    note unfold = rod_pages.simps [of st opts ctx mp pn c run] page_cards.simps [of st mp pn]
    show ?thesis
    proof (cases "nav_error (st pn)")
      case (Some err)
      with True show ?thesis unfolding unfold by (simp add: Let_def)
    next
      case None
      note nav = this
      show ?thesis
      proof (cases "html (st pn)")
        case (Inl err)
        with True nav show ?thesis unfolding unfold by (simp add: Let_def)
      next
        case (Inr h)
        note h = this
        show ?thesis
        proof (cases "is_blocked h")
          case True
          with \<open>pn \<le> mp\<close> nav h show ?thesis unfolding unfold by (simp add: Let_def)
        next
          case False
          note nb = this
          show ?thesis
          proof (cases "parsed (st pn)")
            case (Inl err)
            with True nav h nb show ?thesis unfolding unfold by (simp add: Let_def)
          next
            case (Inr pl)
            note pl = this
            show ?thesis
            proof (cases "pl = []")
              case True
              with \<open>pn \<le> mp\<close> nav h nb pl show ?thesis unfolding unfold by (simp add: Let_def)
            next
              case False
              note ne = this
              have sp: "send_page opts ctx pl (c, sent run) =
                 (if c + int (length pl) > N then Return else Continue,
                  min (c + int (length pl)) N, sent run @ take (nat (N - c)) pl)"
                using nc N less.prems by (rule send_page_no_cancel)
              show ?thesis
              proof (cases "c + int (length pl) > N")
                case True
                then have "take (nat (N - c)) (pl @ page_cards st mp (pn + 1)) = take (nat (N - c)) pl"
                  by simp
                with True \<open>pn \<le> mp\<close> nav h nb pl ne sp show ?thesis
                  unfolding unfold by (simp add: Let_def)
              next
                case False
                then have le: "c + int (length pl) \<le> N" by simp
                have m: "nat (mp + 1 - (pn + 1)) < nat (mp + 1 - pn)"
                  using \<open>pn \<le> mp\<close> by simp
                have a: "nat (N - c) - length pl = nat (N - (c + int (length pl)))"
                  using le less.prems by simp
                have t2: "take (nat (N - c)) pl = pl" using le by simp
                from False \<open>pn \<le> mp\<close> nav h nb pl ne sp show ?thesis
                  unfolding unfold
                  by (simp add: Let_def less.hyps [OF m le] a t2 min_def)
              qed
            qed
          qed
        qed
      qed
    qed
  qed
qed

text \<open>
  Halting. When the inner loop ends without \<open>return\<close>, every listing of the page was
  sent and the count is within the cap.
\<close>

lemma send_page_Continue:
  "send_page opts ctx pl (c, out) = (Continue, c', out') \<Longrightarrow>
   MaxListings opts = N \<Longrightarrow> 0 < N \<Longrightarrow> c \<le> N \<Longrightarrow>
   c' = c + int (length pl) \<and> c' \<le> N"
proof (induction pl arbitrary: c out)
  case Nil
  then show ?case by simp
next
  case (Cons l ls)
  show ?case
  proof (cases "at_cap opts c \<or> ctx (length out)")
    case True
    with Cons.prems(1) show ?thesis by (auto split: if_splits)
  next
    case False
    then have lt: "c + 1 \<le> N" using Cons.prems(2,3) by (simp add: at_cap_def)
    from False Cons.prems(1)
    have "send_page opts ctx ls (c + 1, out @ [l]) = (Continue, c', out')" by simp
    from Cons.IH [OF this Cons.prems(2,3) lt] show ?thesis by simp
  qed
qed

lemma page_cards_past: "\<not> pn \<le> j \<Longrightarrow> page_cards st j pn = []"
  by (subst page_cards.simps) simp

lemma page_cards_good:
  "pn \<le> j \<Longrightarrow> nav_error (st pn) = None \<Longrightarrow> html (st pn) = Inr h \<Longrightarrow> \<not> is_blocked h \<Longrightarrow>
   parsed (st pn) = Inr pl \<Longrightarrow> pl \<noteq> [] \<Longrightarrow>
   page_cards st j pn = pl @ page_cards st j (pn + 1)"
  by (subst page_cards.simps) simp

text \<open>
  Once the pages from \<open>pn\<close> to \<open>j\<close> hold more candidates than the cap leaves room
  for, the loop navigates to no page after \<open>j\<close>, cancelled or not.
\<close>

lemma rod_pages_halts:
  assumes N: "MaxListings opts = N" "0 < N"
  shows "c \<le> N \<Longrightarrow> N - c < int (length (page_cards st j pn)) \<Longrightarrow>
         set (navigated (rod_pages st opts ctx mp pn c run)) \<subseteq> set (navigated run) \<union> {pn..j}"
proof (induction "nat (mp + 1 - pn)" arbitrary: pn c run rule: less_induct)
  case less
  have pj: "pn \<le> j"
  proof (rule ccontr)
    assume "\<not> pn \<le> j"
    then have "page_cards st j pn = []" by (rule page_cards_past)
    with less.prems show False by simp
  qed
  show ?case
  proof (cases rule: rod_pages_iteration [of pn mp st opts ctx c run])
    case finished
    then show ?thesis by auto
  next
    case stopped
    with pj show ?thesis by auto
  next
    case (returned pl c' out)
    with pj show ?thesis by auto
  next
    case (continued pl c' out h)
    have m: "nat (mp + 1 - (pn + 1)) < nat (mp + 1 - pn)" using continued(1) by simp
    from send_page_Continue [OF continued(2) N less.prems(1)]
    have c': "c' = c + int (length pl)" "c' \<le> N" by simp_all
    have "page_cards st j pn = pl @ page_cards st j (pn + 1)"
      using pj continued(4-8) by (rule page_cards_good)
    with less.prems(2) c'(1) have "N - c' < int (length (page_cards st j (pn + 1)))"
      by simp
    from less.hyps [OF m c'(2) this,
        of "run\<lparr>navigated := navigated run @ [pn], sent := out\<rparr>"] continued(3) pj
    show ?thesis by auto
  qed
qed

text \<open>The pages navigated to are consecutive.\<close>

lemma rod_pages_consecutive:
  "\<exists>k. pn - 1 \<le> k \<and>
       navigated (rod_pages st opts ctx mp pn c run) = navigated run @ [pn..k]"
proof (induction "nat (mp + 1 - pn)" arbitrary: pn c run rule: less_induct)
  case less
  show ?case
  proof (cases rule: rod_pages_iteration [of pn mp st opts ctx c run])
    case finished
    then have "navigated (rod_pages st opts ctx mp pn c run) = navigated run @ [pn..pn - 1]"
      by simp
    then show ?thesis by blast
  next
    case stopped
    then have "navigated (rod_pages st opts ctx mp pn c run) = navigated run @ [pn..pn]"
      by simp
    then show ?thesis by (intro exI [of _ pn]) simp
  next
    case (returned pl c' out)
    then have "navigated (rod_pages st opts ctx mp pn c run) = navigated run @ [pn..pn]"
      by simp
    then show ?thesis by (intro exI [of _ pn]) simp
  next
    case (continued pl c' out h)
    have m: "nat (mp + 1 - (pn + 1)) < nat (mp + 1 - pn)" using continued(1) by simp
    from less.hyps [OF m, of c' "run\<lparr>navigated := navigated run @ [pn], sent := out\<rparr>"]
    obtain k where k: "pn \<le> k"
      "navigated (rod_pages st opts ctx mp (pn + 1) c'
         (run\<lparr>navigated := navigated run @ [pn], sent := out\<rparr>))
        = (navigated run @ [pn]) @ [pn + 1..k]" by auto
    have "[pn..k] = pn # [pn + 1..k]" using k(1) by (rule upto_rec1)
    with k continued(3)
    have "navigated (rod_pages st opts ctx mp pn c run) = navigated run @ [pn..k]" by simp
    with k(1) show ?thesis by (intro exI [of _ k]) simp
  qed
qed


subsection \<open>The callbacks of the static scraper\<close>

lemma max_pages_pos: "1 \<le> max_pages opts"
  by (simp add: max_pages_def pos_imp_zdiv_nonneg_iff)

lemma colly_step_at_cap: "at_cap opts (count s) \<Longrightarrow> colly_step opts s cb = s"
  by (cases cb) simp_all



lemma colly_inv_step: "colly_inv opts s \<Longrightarrow> colly_inv opts (colly_step opts s cb)"
proof (cases cb)
  case (OnCard p d)
  then show "colly_inv opts s \<Longrightarrow> ?thesis"
    by (cases p) (auto simp: colly_inv_def at_cap_def)
next
  case (OnNext href)
  then show "colly_inv opts s \<Longrightarrow> ?thesis"
    by (auto simp: colly_inv_def Let_def)
next
  case (OnError e)
  then show "colly_inv opts s \<Longrightarrow> ?thesis" by simp
qed

lemma colly_inv_foldl: "colly_inv opts s \<Longrightarrow> colly_inv opts (foldl (colly_step opts) s cbs)"
  by (induction cbs arbitrary: s) (simp_all add: colly_inv_step)

lemma colly_inv_crawl: "colly_inv opts (colly_crawl opts cbs)"
  unfolding colly_crawl_def
  using max_pages_pos [of opts] by (intro colly_inv_foldl) (simp add: colly_inv_def)

lemma colly_emitted:
  assumes N: "MaxListings opts = N" "0 < N"
  shows "\<forall>p. OnCard p True \<notin> set cbs \<Longrightarrow> count s = int (length (emitted s)) \<Longrightarrow>
         count s \<le> N \<Longrightarrow>
         emitted (foldl (colly_step opts) s cbs) =
           emitted s @ take (nat (N - count s)) (cards_of cbs)"
proof (induction cbs arbitrary: s)
  case Nil
  then show ?case by simp
next
  case (Cons cb cbs)
  have rest: "\<forall>p. OnCard p True \<notin> set cbs" using Cons.prems(1) by auto
  show ?case
  proof (cases cb)
    case (OnCard p d)
    with Cons.prems(1) have d: "\<not> d" by (cases d) auto
    show ?thesis
    proof (cases p)
      case None
      with OnCard Cons.IH [OF rest Cons.prems(2,3)] show ?thesis by simp
    next
      case (Some l)
      show ?thesis
      proof (cases "count s = N")
        case True
        then have cap: "at_cap opts (count s)" using N by (simp add: at_cap_def)
        have "emitted (foldl (colly_step opts) s (cb # cbs)) =
              emitted (foldl (colly_step opts) s cbs)"
          by (simp add: colly_step_at_cap [OF cap])
        with Cons.IH [OF rest Cons.prems(2,3)] True show ?thesis by simp
      next
        case False
        with Cons.prems(3) have lt: "count s < N" by simp
        then have cap: "\<not> at_cap opts (count s)" using N by (simp add: at_cap_def)
        let ?s' = "s\<lparr>count := count s + 1, emitted := emitted s @ [l]\<rparr>"
        have st: "colly_step opts s cb = ?s'" using OnCard Some d cap by simp
        have n: "nat (N - count s) = Suc (nat (N - (count s + 1)))" using lt by simp
        have "emitted (foldl (colly_step opts) ?s' cbs) =
              emitted ?s' @ take (nat (N - count ?s')) (cards_of cbs)"
          using rest Cons.prems(2) lt by (intro Cons.IH) simp_all
        moreover have "foldl (colly_step opts) s (cb # cbs) = foldl (colly_step opts) ?s' cbs"
          by (simp only: foldl_Cons st)
        moreover have "cards_of (cb # cbs) = l # cards_of cbs" using OnCard Some by simp
        ultimately show ?thesis by (simp add: n)
      qed
    qed
  next
    case (OnNext href)
    have e: "emitted (colly_step opts s cb) = emitted s" "count (colly_step opts s cb) = count s"
      using OnNext by (simp_all add: Let_def)
    from Cons.IH [OF rest, of "colly_step opts s cb"] Cons.prems(2,3) e OnNext
    show ?thesis by simp
  next
    case (OnError x)
    with Cons.IH [OF rest Cons.prems(2,3)] show ?thesis by simp
  qed
qed

subsection \<open>The listing cap\<close>

text \<open>
  C6 (amended). With \<open>max_listings = N > 0\<close>:
  \<^item> the browser scraper never sends more than \<open>N\<close> listings; it navigates to
    consecutive pages from page 1, to none beyond page \<open>N div 20 + 1\<close>, and, cancelled
    or not, to none beyond a page \<open>j\<close> once pages 1 to \<open>j\<close> hold more than \<open>N\<close>
    candidates: the cap halts the traversal, it does not only filter what is sent.
    When the run is not cancelled, it sends exactly the first \<open>N\<close> of the candidates
    on the pages it can reach (all of them if there are fewer): the pages from page 1
    up to page \<open>N div 20 + 1\<close> or the first page that fails, is blocked or is empty;
  \<^item> the static scraper never sends more than \<open>N\<close> listings, asks for at most
    \<open>N div 20 + 1\<close> further pages, sends, when not cancelled, exactly the first \<open>N\<close> of
    the candidates that the crawl hands to its card handlers, and once \<open>N\<close> listings
    are sent each of its callbacks does nothing: no listing is sent and no page is
    asked for.
\<close>

theorem cap_enforcement:
  assumes "MaxListings opts = N" and "0 < N"
  shows "int (length (sent (Scrape_rod gp st ctx opts))) \<le> N \<and>
         set (navigated (Scrape_rod gp st ctx opts)) \<subseteq> {1..N div 20 + 1} \<and>
         int (length (navigated (Scrape_rod gp st ctx opts))) \<le> N div 20 + 1 \<and>
         navigated (Scrape_rod gp st ctx opts) =
           [1..int (length (navigated (Scrape_rod gp st ctx opts)))] \<and>
         (N < int (length (page_cards st j 1)) \<longrightarrow>
            set (navigated (Scrape_rod gp st ctx opts)) \<subseteq> {1..j}) \<and>
         ((\<forall>k. \<not> ctx k) \<longrightarrow>
            sent (Scrape_rod None st ctx opts) = take (nat N) (page_cards st (N div 20 + 1) 1)) \<and>
         int (length (emitted (colly_crawl opts cbs))) \<le> N \<and>
         int (length (visits (colly_crawl opts cbs))) \<le> N div 20 + 1 \<and>
         ((\<forall>p. OnCard p True \<notin> set cbs) \<longrightarrow>
            emitted (colly_crawl opts cbs) = take (nat N) (cards_of cbs)) \<and>
         (at_cap opts (count s) \<longrightarrow> colly_step opts s cb = s)"
proof -
  let ?r0 = "\<lparr>sent = [], errs = [], navigated = []\<rparr>"
  have mp: "max_pages opts = N div 20 + 1" using assms by (simp add: max_pages_def)
  have mp0: "0 \<le> N div 20" using assms(2) by (simp add: pos_imp_zdiv_nonneg_iff)
  have a: "int (length (sent (Scrape_rod gp st ctx opts))) \<le> N"
  proof (cases gp)
    case None
    then show ?thesis
      using rod_pages_sent_le [OF assms, of 0 ?r0 st ctx "max_pages opts" 1] assms(2)
      by (simp add: Scrape_rod_def)
  next
    case (Some err)
    then show ?thesis using assms(2) by (simp add: Scrape_rod_def)
  qed
  have nav: "set (navigated (Scrape_rod gp st ctx opts)) \<subseteq> {1..N div 20 + 1} \<and>
      int (length (navigated (Scrape_rod gp st ctx opts))) \<le> N div 20 + 1"
  proof (cases gp)
    case None
    then show ?thesis
      using rod_pages_navigated [of st opts ctx "max_pages opts" 1 0 ?r0] mp0
      by (simp add: Scrape_rod_def mp le_nat_iff add.commute)
  next
    case (Some err)
    then show ?thesis using mp0 by (simp add: Scrape_rod_def)
  qed
  have cons: "navigated (Scrape_rod gp st ctx opts) =
      [1..int (length (navigated (Scrape_rod gp st ctx opts)))]"
  proof (cases gp)
    case None
    from rod_pages_consecutive [of 1 st opts ctx "max_pages opts" 0 ?r0]
    obtain k where k: "0 \<le> k"
      "navigated (rod_pages st opts ctx (max_pages opts) 1 0 ?r0) = [1..k]" by auto
    have "int (length [1..k]) = k" using k(1) by simp
    with k(2) None show ?thesis by (simp add: Scrape_rod_def)
  next
    case (Some err)
    then show ?thesis by (simp add: Scrape_rod_def)
  qed
  have halt: "N < int (length (page_cards st j 1)) \<longrightarrow>
      set (navigated (Scrape_rod gp st ctx opts)) \<subseteq> {1..j}"
  proof
    assume more: "N < int (length (page_cards st j 1))"
    show "set (navigated (Scrape_rod gp st ctx opts)) \<subseteq> {1..j}"
    proof (cases gp)
      case None
      have "set (navigated (rod_pages st opts ctx (max_pages opts) 1 0 ?r0))
            \<subseteq> set (navigated ?r0) \<union> {1..j}"
        using assms(2) more by (intro rod_pages_halts [OF assms]) simp_all
      with None show ?thesis by (simp add: Scrape_rod_def)
    next
      case (Some err)
      then show ?thesis by (simp add: Scrape_rod_def)
    qed
  qed
  have c: "(\<forall>k. \<not> ctx k) \<longrightarrow>
      sent (Scrape_rod None st ctx opts) = take (nat N) (page_cards st (N div 20 + 1) 1)"
  proof
    assume nc: "\<forall>k. \<not> ctx k"
    from rod_pages_sent [OF nc assms, of 0 st "max_pages opts" 1 ?r0] assms(2)
    show "sent (Scrape_rod None st ctx opts) = take (nat N) (page_cards st (N div 20 + 1) 1)"
      by (simp add: Scrape_rod_def mp)
  qed
  have inv: "colly_inv opts (colly_crawl opts cbs)" by (rule colly_inv_crawl)
  have d: "int (length (emitted (colly_crawl opts cbs))) \<le> N"
    using inv assms by (simp add: colly_inv_def)
  have e: "int (length (visits (colly_crawl opts cbs))) \<le> N div 20 + 1"
    using inv mp by (simp add: colly_inv_def)
  have f: "(\<forall>p. OnCard p True \<notin> set cbs) \<longrightarrow>
      emitted (colly_crawl opts cbs) = take (nat N) (cards_of cbs)"
  proof
    assume nc: "\<forall>p. OnCard p True \<notin> set cbs"
    from colly_emitted [OF assms nc, of "\<lparr>count = 0, pageCount = 0, emitted = [], visits = []\<rparr>"]
      assms(2)
    show "emitted (colly_crawl opts cbs) = take (nat N) (cards_of cbs)"
      by (simp add: colly_crawl_def)
  qed
  have g: "at_cap opts (count s) \<longrightarrow> colly_step opts s cb = s"
    by (simp add: colly_step_at_cap)
  from a nav cons halt c d e f g show ?thesis by blast
qed

lemma blocked_test: "\<not> is_blocked ''<html><body>for sale</body></html>''"
  by (simp add: is_blocked_def string_defs)

lemmas rod_eval = Scrape_rod_def rod_pages.simps page_cards.simps max_pages_def run_opts_def
  ten_per_page_def hundred_per_page_def twenty_per_page_def
  never_done_def always_done_def blocked_test at_cap_def Let_def eval_nat_numeral

theorem cap_enforcement_witness:
  "MaxListings (run_opts 25) = 25 \<and> (0 :: int) < 25 \<and>
   25 < int (length (page_cards hundred_per_page 1 1)) \<and>
   (\<forall>k. \<not> never_done k) \<and>
   at_cap (run_opts 25)
     (count \<lparr>count = 25, pageCount = 0, emitted = replicate 25 shop_B, visits = []\<rparr>) \<and>
   length (sent (Scrape_rod None hundred_per_page never_done (run_opts 25))) \<le> 25 \<and>
   set (navigated (Scrape_rod None hundred_per_page never_done (run_opts 25))) \<subseteq> {1..1} \<and>
   sent (Scrape_rod None hundred_per_page never_done (run_opts 25)) =
     take 25 (page_cards hundred_per_page 2 1) \<and>
   emitted (colly_crawl (run_opts 25) [OnCard (Some shop_B) False, OnNext ''/page/2'']) =
     [shop_B] \<and>
   colly_step (run_opts 25)
     \<lparr>count = 25, pageCount = 0, emitted = replicate 25 shop_B, visits = []\<rparr>
     (OnNext ''/page/2'')
     = \<lparr>count = 25, pageCount = 0, emitted = replicate 25 shop_B, visits = []\<rparr>"
proof -
  have a: "MaxListings (run_opts 25) = 25" by (simp add: run_opts_def)
  have b: "(0 :: int) < 25" by simp
  have c: "\<forall>k. \<not> never_done k" by (simp add: never_done_def)
  have d: "\<forall>p. OnCard p True \<notin> set [OnCard (Some shop_B) False, OnNext ''/page/2'']"
    by simp
  have e: "25 < int (length (page_cards hundred_per_page 1 1))"
    by (simp add: page_cards.simps hundred_per_page_def blocked_test)
  have f: "at_cap (run_opts 25)
     (count \<lparr>count = 25, pageCount = 0, emitted = replicate 25 shop_B, visits = []\<rparr>)"
    by (simp add: at_cap_def run_opts_def)
  show ?thesis
    using a c d e f
      cap_enforcement [where opts = "run_opts 25" and N = 25 and gp = None
        and st = hundred_per_page and ctx = never_done and j = 1
        and cbs = "[OnCard (Some shop_B) False, OnNext ''/page/2'']"
        and s = "\<lparr>count = 25, pageCount = 0, emitted = replicate 25 shop_B, visits = []\<rparr>"
        and cb = "OnNext ''/page/2''", OF a b]
    by simp
qed

text \<open>
  C6 as stated fails: the number sent is not the minimum of \<open>N\<close> and the number of
  listings available. On a site with ten listings on each of its 50 pages and
  \<open>N = 25\<close>, the page bound is \<open>25 div 20 + 1 = 2\<close>: the browser scraper visits pages 1
  and 2 and sends 20 listings, although page 3 holds ten more.
\<close>

theorem cap_not_exact_counterexample:
  "length (sent (Scrape_rod None ten_per_page never_done (run_opts 25))) = 20 \<and>
   navigated (Scrape_rod None ten_per_page never_done (run_opts 25)) = [1, 2] \<and>
   parsed (ten_per_page 3) = Inr (replicate 10 shop_B)"
  by (simp add: rod_eval)

text \<open>
  Where a page ends exactly at the cap, the two scrapers differ. With \<open>N = 20\<close> and
  twenty listings on each page, the browser scraper has sent 20 listings after page 1
  and navigates to page 2, where the check before the first send returns; the
  pagination handler of the static scraper does nothing once 20 listings are sent.
\<close>

lemma page_end_at_cap:
  "length (sent (Scrape_rod None twenty_per_page never_done (run_opts 20))) = 20 \<and>
   navigated (Scrape_rod None twenty_per_page never_done (run_opts 20)) = [1, 2] \<and>
   visits (colly_crawl (run_opts 20)
     (replicate 20 (OnCard (Some shop_B) False) @ [OnNext ''/page/2''])) = []"
  by code_simp

subsection \<open>Cancellation\<close>

text \<open>
  C7. The claim says that no \<open>Upsert\<close> call is made once the context is cancelled and
  that a scraper stops within one suspension point. The drain loop of \<open>RunSource\<close>
  has no case for \<open>ctx.Done()\<close>: in a run that receives \<open>Shop A\<close>, is cancelled, and
  then receives \<open>Shop B\<close> (already in the buffered channel), \<open>RunSource\<close> counts
  \<open>Shop B\<close> and calls \<open>Upsert\<close> for it with the cancelled context. The call returns
  the error of the context, which is logged; \<open>Shop B\<close> is not stored; the \<open>UPDATE\<close>
  of the job fails the same way, so the job stays \<open>running\<close>; and the run logs its
  completion with found 2 and returns \<open>nil\<close>. The browser scraper consults the
  context in the \<open>select\<close> of a send only: with a context cancelled from the start
  it still navigates to page 1 (and sleeps, scrolls and parses) before it returns.
\<close>

theorem RunSource_upserts_after_cancel:
  "RunSource (engine_with cancelled_run) env1 alpha_world ''alpha'' 0 =
     (None,
      \<lparr>the_db = \<lparr>sources = [alpha],
                 listings = [insert_values
                   (shop_A 20000000\<lparr>ID := 101, SourceID := 7, FirstSeenAt := 11,
                                      LastSeenAt := 10\<rparr>)],
                 scrape_jobs =
                   [\<lparr>JobID = 201, JobSourceID = 7, Status = ''running'', StartedAt = None,
                     CompletedAt = None, ListingsFound = 0, ListingsNew = 0,
                     ListingsUpdated = 0, ErrorMessage = [], CreatedAt = 5\<rparr>]\<rparr>,
       the_conn = \<lparr>ctx_done = True, db_down = False\<rparr>,
       the_log = [LogUpsertFailed ''2'' ContextDone, LogUpdateJobFailed ContextDone,
                  LogCompleted ''alpha'' 2 2 0]\<rparr>) \<and>
   navigated (Scrape_rod None ten_per_page always_done (run_opts 0)) = [1] \<and>
   sent (Scrape_rod None ten_per_page always_done (run_opts 0)) = []"
  by code_simp

subsection \<open>The rate limiter\<close>

lemma Allow_accepts_iff:
  "fst (Allow rl now key) \<longleftrightarrow>
     int (length (filter (\<lambda>t. now - window rl < t) (requests_of rl key))) < limit rl"
  by (auto simp: Allow_def Let_def)

lemma Allow_requests:
  "requests_of (snd (Allow rl now key)) k =
     (if k = key
      then filter (\<lambda>t. now - window rl < t) (requests_of rl key) @
             (if fst (Allow rl now key) then [now] else [])
      else requests_of rl k)"
  by (simp add: Allow_def Let_def requests_of_def)

lemma Allow_params:
  "window (snd (Allow rl now key)) = window rl \<and> limit (snd (Allow rl now key)) = limit rl"
  by (simp add: Allow_def Let_def)

lemma cleanup_requests:
  "requests_of (cleanup rl now) k = filter (\<lambda>t. now - window rl < t) (requests_of rl k)"
  by (simp add: cleanup_def requests_of_def Let_def split: option.split)

lemma cleanup_params:
  "window (cleanup rl now) = window rl \<and> limit (cleanup rl now) = limit rl"
  by (simp add: cleanup_def)

lemma limiter_run_snoc:
  "limiter_run rl (evs @ [e]) = limiter_step (limiter_run rl evs) e"
  by (simp add: limiter_run_def)

lemma limiter_run_params:
  "window (fst (limiter_run rl evs)) = window rl \<and> limit (fst (limiter_run rl evs)) = limit rl"
proof (induction evs rule: rev_induct)
  case Nil
  then show ?case by (simp add: limiter_run_def)
next
  case (snoc e evs)
  obtain r acc where s: "limiter_run rl evs = (r, acc)" by (cases "limiter_run rl evs")
  with snoc show ?case
    by (cases e) (simp_all add: limiter_run_snoc Allow_params cleanup_params split: prod.split,
        metis Allow_params snd_conv)
qed

lemma limiter_step_Allow:
  "limiter_step s (AllowCall now key) =
     (snd (Allow (fst s) now key),
      if fst (Allow (fst s) now key) then snd s @ [(now, key)] else snd s)"
  by (cases s) (simp add: split_beta)

lemma limiter_step_Cleanup: "limiter_step s (CleanupTick now) = (cleanup (fst s) now, snd s)"
  by (cases s) simp

lemma filter_filter_window:
  "(n :: int) - w \<le> b \<Longrightarrow> filter (\<lambda>t. n - w < t \<and> b < t) ts = filter (\<lambda>t. b < t) ts"
  by (induction ts) auto

text \<open>
  Above any bound that is within the window of the last event, the times stored for a
  key are the times at which calls of that key were allowed.
\<close>

lemma limiter_run_stored:
  assumes "sorted (map event_time evs)"
    and "\<forall>e \<in> set evs. event_time e - window rl \<le> b"
    and "requests rl = Map.empty"
  shows "filter (\<lambda>t. b < t) (requests_of (fst (limiter_run rl evs)) key) =
         filter (\<lambda>t. b < t) (allowed_times (snd (limiter_run rl evs)) key)"
  using assms(1,2)
proof (induction evs rule: rev_induct)
  case Nil
  then show ?case
    by (simp add: limiter_run_def requests_of_def allowed_times_def assms(3))
next
  case (snoc e evs)
  let ?s = "limiter_run rl evs"
  have w: "window (fst ?s) = window rl" by (simp add: limiter_run_params)
  have srt: "sorted (map event_time evs)" using snoc.prems(1) by (simp add: sorted_append)
  have bnd: "\<forall>e \<in> set evs. event_time e - window rl \<le> b" using snoc.prems(2) by simp
  have eb: "event_time e - window rl \<le> b" using snoc.prems(2) by simp
  note IH = snoc.IH [OF srt bnd]
  show ?case
  proof (cases e)
    case (AllowCall now k)
    with eb have nb: "now - window rl \<le> b" by simp
    show ?thesis
    proof (cases "key = k")
      case True
      show ?thesis
        using IH True nb
        by (simp add: limiter_run_snoc AllowCall limiter_step_Allow Allow_requests w
            filter_filter_window allowed_times_def)
    next
      case False
      show ?thesis
        using IH False
        by (simp add: limiter_run_snoc AllowCall limiter_step_Allow Allow_requests
            allowed_times_def)
    qed
  next
    case (CleanupTick now)
    with eb have nb: "now - window rl \<le> b" by simp
    show ?thesis
      using IH nb
      by (simp add: limiter_run_snoc CleanupTick limiter_step_Cleanup cleanup_requests w
          filter_filter_window)
  qed
qed

text \<open>
  A call is allowed if and only if fewer than \<open>limit\<close> of the calls of that key
  that were allowed before lie within the window that ends now.
\<close>

lemma sliding_window:
  assumes "sorted (map event_time evs @ [now])"
  shows "fst (Allow (fst (limiter_run (NewRateLimiter n w) evs)) now key) \<longleftrightarrow>
           int (length (filter (\<lambda>t. now - w < t)
                  (allowed_times (snd (limiter_run (NewRateLimiter n w) evs)) key))) < n"
proof -
  let ?rl = "NewRateLimiter n w"
  have p: "window (fst (limiter_run ?rl evs)) = w" "limit (fst (limiter_run ?rl evs)) = n"
    by (simp_all add: limiter_run_params NewRateLimiter_def)
  have srt: "sorted (map event_time evs)" using assms by (simp add: sorted_append)
  have bnd: "\<forall>e \<in> set evs. event_time e - window ?rl \<le> now - w"
    using assms by (simp add: sorted_append NewRateLimiter_def)
  have "filter (\<lambda>t. now - w < t) (requests_of (fst (limiter_run ?rl evs)) key) =
        filter (\<lambda>t. now - w < t) (allowed_times (snd (limiter_run ?rl evs)) key)"
    using srt bnd by (rule limiter_run_stored) (simp add: NewRateLimiter_def)
  then show ?thesis by (simp add: Allow_accepts_iff p)
qed

lemma allowed_spacing:
  assumes "sorted (map event_time evs)"
  shows "sorted_wrt (\<lambda>a b. a + w \<le> b)
           (allowed_times (snd (limiter_run (NewRateLimiter 1 w) evs)) key)"
  using assms
proof (induction evs rule: rev_induct)
  case Nil
  then show ?case by (simp add: limiter_run_def allowed_times_def)
next
  case (snoc e evs)
  let ?s = "limiter_run (NewRateLimiter 1 w) evs"
  have srt: "sorted (map event_time evs)" using snoc.prems by (simp add: sorted_append)
  note IH = snoc.IH [OF srt]
  show ?case
  proof (cases e)
    case (CleanupTick now)
    with IH show ?thesis by (simp add: limiter_run_snoc limiter_step_Cleanup)
  next
    case (AllowCall now k)
    show ?thesis
    proof (cases "key = k \<and> fst (Allow (fst ?s) now k)")
      case False
      with IH show ?thesis
        by (auto simp: limiter_run_snoc AllowCall limiter_step_Allow allowed_times_def)
    next
      case True
      have "sorted (map event_time evs @ [now])" using snoc.prems AllowCall by simp
      from sliding_window [OF this, of 1 w k] True
      have "filter (\<lambda>t. now - w < t) (allowed_times (snd ?s) k) = []" by simp
      then have "\<forall>t \<in> set (allowed_times (snd ?s) k). t + w \<le> now"
        by (auto simp: filter_empty_conv)
      with IH True show ?thesis
        by (simp add: limiter_run_snoc AllowCall limiter_step_Allow allowed_times_def
            sorted_wrt_append)
    qed
  qed
qed

text \<open>
  The rate limit of the refresh trigger. Let the limiter of the handler (one request
  per hour, keyed by \<open>RemoteAddr\<close>) have lived through any sequence of calls and
  cleanup ticks with a clock that does not run backwards. Then
  \<^item> the calls that it allowed for one key are at least one hour apart;
  \<^item> a trigger passes the limiter if and only if none of the triggers of its key
    that passed before lies within the hour that ends now;
  \<^item> a trigger that passes is answered 202 (or 500 if the job cannot be queued), and
    a trigger that does not is answered with status 429 and a JSON error body that
    says to try again later, and queues nothing.
\<close>

theorem refresh_rate_limit:
  assumes "sorted (map event_time evs @ [now])"
    and "rateLimiter h = fst (limiter_run (NewRateLimiter 1 Hour) evs)"
  shows "sorted_wrt (\<lambda>a b. a + Hour \<le> b)
           (allowed_times (snd (limiter_run (NewRateLimiter 1 Hour) evs)) key) \<and>
         (fst (Allow (rateLimiter h) now (RemoteAddr r)) \<longleftrightarrow>
            int (length (filter (\<lambda>t. now - Hour < t)
              (allowed_times (snd (limiter_run (NewRateLimiter 1 Hour) evs)) (RemoteAddr r)))) < 1) \<and>
         (if fst (Allow (rateLimiter h) now (RemoteAddr r))
          then StatusCode (fst (TriggerRefresh h now q r)) = (if q then 202 else 500)
          else fst (TriggerRefresh h now q r) =
                 \<lparr>StatusCode = 429, Header = [(''Content-Type'', ''application/json'')],
                  Body = ErrorBody
                    ''Refresh is limited to once per hour. Please try again later.''
                    (request_id r)\<rparr> \<and>
               snd (snd (TriggerRefresh h now q r)) = None)"
proof -
  have srt: "sorted (map event_time evs)" using assms(1) by (simp add: sorted_append)
  have a: "sorted_wrt (\<lambda>a b. a + Hour \<le> b)
           (allowed_times (snd (limiter_run (NewRateLimiter 1 Hour) evs)) key)"
    using srt by (rule allowed_spacing)
  have b: "fst (Allow (rateLimiter h) now (RemoteAddr r)) \<longleftrightarrow>
            int (length (filter (\<lambda>t. now - Hour < t)
              (allowed_times (snd (limiter_run (NewRateLimiter 1 Hour) evs)) (RemoteAddr r)))) < 1"
    unfolding assms(2) using assms(1) by (rule sliding_window)
  have c: "if fst (Allow (rateLimiter h) now (RemoteAddr r))
          then StatusCode (fst (TriggerRefresh h now q r)) = (if q then 202 else 500)
          else fst (TriggerRefresh h now q r) =
                 \<lparr>StatusCode = 429, Header = [(''Content-Type'', ''application/json'')],
                  Body = ErrorBody
                    ''Refresh is limited to once per hour. Please try again later.''
                    (request_id r)\<rparr> \<and>
               snd (snd (TriggerRefresh h now q r)) = None"
    by (simp add: TriggerRefresh_def TooManyRequests_def InternalError_def Error_def
        Accepted_def JSON_def split_beta Let_def)
  from a b c show ?thesis by blast
qed

lemmas refresh_defs = TriggerRefresh_def NewSourceHandler_def NewRateLimiter_def Allow_def
  requests_of_def TooManyRequests_def InternalError_def Error_def Accepted_def JSON_def
  queueScrapeJob_def refresh_request_def Hour_def Second_def Middleware_def Let_def

lemmas limiter_defs = limiter_run_def allowed_times_def NewRateLimiter_def Allow_def
  requests_of_def Hour_def Second_def Let_def

theorem refresh_rate_limit_witness:
  "sorted (map event_time [AllowCall 1000 ''203.0.113.7:51234''] @ [1000 + Second]) \<and>
   rateLimiter (fst (snd (TriggerRefresh (NewSourceHandler []) 1000 True refresh_request))) =
     fst (limiter_run (NewRateLimiter 1 Hour) [AllowCall 1000 ''203.0.113.7:51234'']) \<and>
   StatusCode (fst (TriggerRefresh
       (fst (snd (TriggerRefresh (NewSourceHandler []) 1000 True refresh_request)))
       (1000 + Second) True refresh_request)) = 429"
proof -
  let ?h = "fst (snd (TriggerRefresh (NewSourceHandler []) 1000 True refresh_request))"
  have a: "sorted (map event_time [AllowCall 1000 ''203.0.113.7:51234''] @ [1000 + Second])"
    by (simp add: Second_def)
  have b: "rateLimiter ?h =
     fst (limiter_run (NewRateLimiter 1 Hour) [AllowCall 1000 ''203.0.113.7:51234''])"
    by (simp add: refresh_defs limiter_defs)
  have c: "\<not> fst (Allow (rateLimiter ?h) (1000 + Second) (RemoteAddr refresh_request))"
    by (simp add: refresh_defs)
  show ?thesis
    using a b c refresh_rate_limit [OF a b, of "''203.0.113.7:51234''" refresh_request True]
    by simp
qed

text \<open>
  C9. The claim says that every rejected trigger carries \<open>Retry-After\<close>. The response
  of \<open>TriggerRefresh\<close> to a rejected trigger (here the second of two triggers from
  one address, one second apart) is built by \<open>TooManyRequests\<close>: status 429 with
  \<open>Content-Type\<close> and no \<open>Retry-After\<close>. The other place that rejects a
  rate-limited request, \<open>RateLimiter.Middleware\<close>, does set \<open>Retry-After\<close> for the
  same limiter state and request; the router does not install it on this route.
\<close>

theorem TriggerRefresh_rejects_without_Retry_After:
  "StatusCode (fst (TriggerRefresh (NewSourceHandler []) 1000 True refresh_request)) = 202 \<and>
   fst (TriggerRefresh
          (fst (snd (TriggerRefresh (NewSourceHandler []) 1000 True refresh_request)))
          (1000 + Second) True refresh_request) =
     \<lparr>StatusCode = 429, Header = [(''Content-Type'', ''application/json'')],
      Body = ErrorBody ''Refresh is limited to once per hour. Please try again later.''
               ''req-1''\<rparr> \<and>
   map_of (Header (fst (TriggerRefresh
          (fst (snd (TriggerRefresh (NewSourceHandler []) 1000 True refresh_request)))
          (1000 + Second) True refresh_request))) ''Retry-After'' = None \<and>
   map_option Header (fst (Middleware
          (rateLimiter (fst (snd (TriggerRefresh (NewSourceHandler []) 1000 True refresh_request))))
          (1000 + Second) refresh_request)) =
     Some [(''Content-Type'', ''application/json''), (''Retry-After'', ''60'')]"
  by (simp add: refresh_defs)

end
